theory Spec2Isabelle
  imports Complex_Main "HOL-Library.Word" "HOL-Library.AList" "HOL-Library.Sublist"
begin

section \<open>JavaScript values\<close>

text \<open>
  A JavaScript string is a sequence of 16-bit code units. String literals of the source
  are written \<open>js ''...''\<close>. Numbers that index rows and columns are integers (the source
  never produces a fraction for them); they are modelled as \<open>int\<close>, exact at every size.
\<close>

type_synonym jschar = "16 word"
type_synonym jstring = "jschar list"

definition js :: "string \<Rightarrow> jstring" where
  "js s = map (\<lambda>c. of_nat (of_char c)) s"

text \<open>
  \<open>String.prototype.trim\<close> removes WhiteSpace and LineTerminator code units from both
  ends: TAB, LF, VT, FF, CR, SP, NBSP, U+1680, U+2000..U+200A, U+2028, U+2029, U+202F,
  U+205F, U+3000 and U+FEFF.
\<close>

definition isWhiteSpace :: "jschar \<Rightarrow> bool" where
  "isWhiteSpace c \<longleftrightarrow>
     c \<in> {0x09, 0x0A, 0x0B, 0x0C, 0x0D, 0x20, 0xA0, 0x1680,
          0x2028, 0x2029, 0x202F, 0x205F, 0x3000, 0xFEFF}
     \<or> (0x2000 \<le> c \<and> c \<le> 0x200A)"

definition trim :: "jstring \<Rightarrow> jstring" where
  "trim s = rev (dropWhile isWhiteSpace (rev (dropWhile isWhiteSpace s)))"

text \<open>\<open>Array.prototype.join\<close> on an array of strings.\<close>

fun join :: "jstring \<Rightarrow> jstring list \<Rightarrow> jstring" where
  "join sep [] = []"
| "join sep [x] = x"
| "join sep (x # y # ys) = x @ sep @ join sep (y # ys)"

text \<open>\<open>String.prototype.split\<close> with a one-code-unit separator.\<close>

fun splitOn :: "jschar \<Rightarrow> jstring \<Rightarrow> jstring list" where
  "splitOn sep [] = [[]]"
| "splitOn sep (c # cs) =
     (if c = sep then [] # splitOn sep cs
      else (case splitOn sep cs of [] \<Rightarrow> [[c]] | p # ps \<Rightarrow> (c # p) # ps))"

text \<open>Decimal rendering of an integer, as a template literal or \<open>toString\<close> prints it.\<close>

definition digitChar :: "nat \<Rightarrow> jschar" where
  "digitChar d = of_nat (48 + d)"

fun decimal :: "nat \<Rightarrow> jstring" where
  "decimal n = (if n < 10 then [digitChar n] else decimal (n div 10) @ [digitChar (n mod 10)])"

declare decimal.simps [simp del]

definition numToString :: "int \<Rightarrow> jstring" where
  "numToString n = (if n < 0 then 0x2D # decimal (nat (- n)) else decimal (nat n))"

definition isDigit :: "jschar \<Rightarrow> bool" where
  "isDigit c \<longleftrightarrow> 0x30 \<le> c \<and> c \<le> 0x39"

definition isUpperAZ :: "jschar \<Rightarrow> bool" where
  "isUpperAZ c \<longleftrightarrow> 0x41 \<le> c \<and> c \<le> 0x5A"

text \<open>\<open>parseInt(s, 10)\<close> on a string of decimal digits.\<close>

definition parseDigits :: "jstring \<Rightarrow> int" where
  "parseDigits s = foldl (\<lambda>a c. 10 * a + (uint c - 48)) 0 s"

text \<open>
  An object used as a dictionary (\<open>Record<string, any>\<close>) is the association list of its
  own properties, in insertion order; a value is a string or a number. An object literal
  with computed keys defines own properties: \<open>AList.update\<close>, which overwrites in place
  or appends (and so is \<open>Map.prototype.set\<close>, whose iteration order is insertion order).
\<close>

datatype jsval = Str jstring | Num int

type_synonym jsrecord = "(jstring \<times> jsval) list"

fun valToString :: "jsval \<Rightarrow> jstring" where
  "valToString (Str s) = s"
| "valToString (Num n) = numToString n"

text \<open>
  Every such object is created by \<open>{}\<close> or by an object literal and inherits from
  \<open>Object.prototype\<close>: reading a name that is no own property finds the inherited member
  of that name, if there is one. \<open>objectPrototype\<close> lists the members with the string that
  \<open>toString()\<close> gives for each: the text of a built-in function, as V8 prints it (other
  engines differ in its white space), and \<open>[object Object]\<close> for \<open>__proto__\<close>, whose
  getter returns \<open>Object.prototype\<close> itself.
\<close>

definition nativeFunction :: "jstring \<Rightarrow> jstring" where
  "nativeFunction name = js ''function '' @ name @ js ''() { [native code] }''"

definition objectPrototype :: "(jstring \<times> jstring) list" where
  "objectPrototype =
     [(js ''constructor'', nativeFunction (js ''Object'')),
      (js ''__defineGetter__'', nativeFunction (js ''__defineGetter__'')),
      (js ''__defineSetter__'', nativeFunction (js ''__defineSetter__'')),
      (js ''hasOwnProperty'', nativeFunction (js ''hasOwnProperty'')),
      (js ''__lookupGetter__'', nativeFunction (js ''__lookupGetter__'')),
      (js ''__lookupSetter__'', nativeFunction (js ''__lookupSetter__'')),
      (js ''isPrototypeOf'', nativeFunction (js ''isPrototypeOf'')),
      (js ''propertyIsEnumerable'', nativeFunction (js ''propertyIsEnumerable'')),
      (js ''toString'', nativeFunction (js ''toString'')),
      (js ''valueOf'', nativeFunction (js ''valueOf'')),
      (js ''__proto__'', js ''[object Object]''),
      (js ''toLocaleString'', nativeFunction (js ''toLocaleString''))]"

text \<open>
  \<open>(row[h] ?? "").toString()\<close>: the own property, else the inherited member (none of
  them is null or undefined), else the empty string.
\<close>

definition fieldString :: "jsrecord \<Rightarrow> jstring \<Rightarrow> jstring" where
  "fieldString row h =
     (case map_of row h of
        Some v \<Rightarrow> valToString v
      | None \<Rightarrow> (case map_of objectPrototype h of None \<Rightarrow> [] | Some s \<Rightarrow> s))"

text \<open>
  The assignment \<open>record[k] = v\<close> of a string or a number: it writes the own property,
  except that for \<open>__proto__\<close>, when that is no own property, it runs the setter inherited
  from \<open>Object.prototype\<close>, which ignores a value that is not an object.
\<close>

definition setProperty :: "jstring \<Rightarrow> jsval \<Rightarrow> jsrecord \<Rightarrow> jsrecord" where
  "setProperty k v record =
     (if k = js ''__proto__'' \<and> map_of record k = None then record
      else AList.update k v record)"

text \<open>An exception thrown by the program.\<close>

datatype jsError = TypeError

text \<open>
  The built-ins of the JavaScript host whose results depend on the Unicode tables, on
  the locale or on floating-point parsing are parameters of the model: the two case
  mappings, \<open>Number(s)\<close> (its value when finite: a finite double is a rational),
  \<open>Date.parse(s)\<close> (its milliseconds when not NaN) and \<open>a.localeCompare(b)\<close>.
  Every general theorem holds for every host.
\<close>

record host =
  toUpperCase :: "jstring \<Rightarrow> jstring"
  toLowerCase :: "jstring \<Rightarrow> jstring"
  numberOf :: "jstring \<Rightarrow> rat option"
  dateParse :: "jstring \<Rightarrow> int option"
  localeCompare :: "jstring \<Rightarrow> jstring \<Rightarrow> int"

text \<open>The case mappings on ASCII text, where the host's mappings agree with them.\<close>

definition asciiUpper :: "jstring \<Rightarrow> jstring" where
  "asciiUpper s = map (\<lambda>c. if 0x61 \<le> c \<and> c \<le> 0x7A then c - 0x20 else c) s"

definition asciiLower :: "jstring \<Rightarrow> jstring" where
  "asciiLower s = map (\<lambda>c. if 0x41 \<le> c \<and> c \<le> 0x5A then c + 0x20 else c) s"

section \<open>Coordinate model and range extraction\<close>

type_synonym Grid = "jstring list list"

record RangeA1 =
  r0 :: int
  c0 :: int
  r1 :: int
  c1 :: int

definition clamp :: "int \<Rightarrow> int \<Rightarrow> int \<Rightarrow> int" where
  "clamp n lo hi = max lo (min hi n)"

definition lettersToCol :: "host \<Rightarrow> jstring \<Rightarrow> int" where
  "lettersToCol h letters =
     foldl (\<lambda>n c. n * 26 + (uint c - 64)) 0 (toUpperCase h letters) - 1"

text \<open>\<open>s.match(/^([A-Z]+)(\d+)$/)\<close>, then the column and the 0-based row.\<close>

definition parseCell :: "host \<Rightarrow> jstring \<Rightarrow> (int \<times> int) option" where
  "parseCell h s =
     (let letters = takeWhile isUpperAZ s;
          digits = dropWhile isUpperAZ s
      in if letters = [] \<or> digits = [] then None
         else if list_all isDigit digits then
           (let c = lettersToCol h letters;
                r = parseDigits digits - 1
            in if r < 0 \<or> c < 0 then None else Some (r, c))
         else None)"

definition parseA1Range :: "host \<Rightarrow> jstring \<Rightarrow> RangeA1 option" where
  "parseA1Range h a1 =
     (let cleaned = toUpperCase h (trim a1)
      in if cleaned = [] then None
         else (case splitOn 0x3A cleaned of
                 [] \<Rightarrow> None
               | p0 # rest \<Rightarrow>
                   (case parseCell h p0 of
                      None \<Rightarrow> None
                    | Some (ar, ac) \<Rightarrow>
                        (case rest of
                           [] \<Rightarrow> Some \<lparr> r0 = ar, c0 = ac, r1 = ar, c1 = ac \<rparr>
                         | p1 # _ \<Rightarrow>
                             (case parseCell h p1 of
                                None \<Rightarrow> None
                              | Some (br, bc) \<Rightarrow> Some \<lparr> r0 = ar, c0 = ac, r1 = br, c1 = bc \<rparr>)))))"

text \<open>Indexing an array: \<open>undefined\<close> outside \<open>0 .. length - 1\<close>.\<close>

definition nth_opt :: "'a list \<Rightarrow> int \<Rightarrow> 'a option" where
  "nth_opt xs i = (if 0 \<le> i \<and> i < int (length xs) then Some (xs ! nat i) else None)"

text \<open>\<open>(grid[r]?.[c] ?? "").toString()\<close>\<close>

definition cell :: "Grid \<Rightarrow> int \<Rightarrow> int \<Rightarrow> jstring" where
  "cell grid r c =
     (case nth_opt grid r of
        None \<Rightarrow> []
      | Some row \<Rightarrow> (case nth_opt row c of None \<Rightarrow> [] | Some v \<Rightarrow> v))"

definition normalizeRange :: "RangeA1 \<Rightarrow> Grid \<Rightarrow> RangeA1" where
  "normalizeRange rng grid =
     (let rows = int (length grid);
          cols = (case grid of [] \<Rightarrow> 0 | row # _ \<Rightarrow> int (length row))
      in \<lparr> r0 = clamp (min (r0 rng) (r1 rng)) 0 (max 0 (rows - 1)),
           c0 = clamp (min (c0 rng) (c1 rng)) 0 (max 0 (cols - 1)),
           r1 = clamp (max (r0 rng) (r1 rng)) 0 (max 0 (rows - 1)),
           c1 = clamp (max (c0 rng) (c1 rng)) 0 (max 0 (cols - 1)) \<rparr>)"

definition getRange2D :: "Grid \<Rightarrow> RangeA1 \<Rightarrow> jstring list list" where
  "getRange2D grid rng =
     (let n = normalizeRange rng grid
      in map (\<lambda>r. map (\<lambda>c. cell grid r c) [c0 n..c1 n]) [r0 n..r1 n])"

text \<open>
  \<open>block[0]\<close> in the single-row case: the block of a normalized range always has a row
  (lemma \<open>getRange2D_rows\<close>), so the empty case of the model is never taken.
\<close>

definition getRangeVector :: "Grid \<Rightarrow> RangeA1 \<Rightarrow> jstring list" where
  "getRangeVector grid rng =
     (let n = normalizeRange rng grid;
          h = r1 n - r0 n + 1;
          w = c1 n - c0 n + 1;
          block = getRange2D grid n
      in if w = 1 then map (\<lambda>r. case r of [] \<Rightarrow> [] | v # _ \<Rightarrow> v) block
         else if h = 1 then (case block of [] \<Rightarrow> [] | b # _ \<Rightarrow> b)
         else concat block)"

section \<open>Record mapper: one range of a column\<close>

type_synonym RoleKey = jstring

definition rowKey :: "int \<Rightarrow> RoleKey" where
  "rowKey r = js ''r:'' @ numToString r"

definition colKey :: "int \<Rightarrow> RoleKey" where
  "colKey c = js ''c:'' @ numToString c"

datatype keyKind = RowKind | ColKind

record rolesMap =
  rmap :: "(RoleKey \<times> jstring) list"
  warning :: "jstring option"
  keyKind :: keyKind

definition getRolesMap :: "Grid \<Rightarrow> RangeA1 \<Rightarrow> rolesMap" where
  "getRolesMap grid rng =
     (let n = normalizeRange rng grid;
          h = r1 n - r0 n + 1;
          w = c1 n - c0 n + 1
      in if w = 1 then
           \<lparr> rmap = fold (\<lambda>r m. AList.update (rowKey r) (trim (cell grid r (c0 n))) m)
                       [r0 n..r1 n] [],
             warning = None, keyKind = RowKind \<rparr>
         else if h = 1 then
           \<lparr> rmap = fold (\<lambda>c m. AList.update (colKey c) (trim (cell grid (r0 n) c)) m)
                       [c0 n..c1 n] [],
             warning = None, keyKind = ColKind \<rparr>
         else
           \<lparr> rmap = fold (\<lambda>r m. AList.update (rowKey r)
                         (join (js '' '')
                            (filter (\<lambda>v. v \<noteq> []) (map (\<lambda>c. trim (cell grid r c)) [c0 n..c1 n]))) m)
                       [r0 n..r1 n] [],
             warning = Some (js ''Range is a block; values are joined per row.''),
             keyKind = RowKind \<rparr>)"

section \<open>CSV codec\<close>

definition csvEscape :: "jstring \<Rightarrow> jstring" where
  "csvEscape v =
     (let mustQuote = list_ex (\<lambda>c. c = 0x22 \<or> c = 0x2C \<or> c = 0x0A \<or> c = 0x0D) v;
          escaped = concat (map (\<lambda>c. if c = 0x22 then [0x22, 0x22] else [c]) v)
      in if mustQuote then [0x22] @ escaped @ [0x22] else escaped)"

definition toCsv :: "jstring list \<Rightarrow> jsrecord list \<Rightarrow> jstring" where
  "toCsv headers rows =
     join [0x0A]
       (join [0x2C] (map csvEscape headers)
        # map (\<lambda>row. join [0x2C] (map (\<lambda>h. csvEscape (fieldString row h)) headers)) rows)"

text \<open>
  \<open>makeUniqueHeaders\<close>: \<open>seen\<close> counts the occurrences of each base name so far.
\<close>

fun makeUniqueLoop :: "(jstring \<times> nat) list \<Rightarrow> jstring list \<Rightarrow> jstring list" where
  "makeUniqueLoop seen [] = []"
| "makeUniqueLoop seen (h # hs) =
     (let base = (if trim h = [] then js ''Column'' else trim h);
          n = (case map_of seen base of None \<Rightarrow> 0 | Some k \<Rightarrow> k) + 1
      in (if n = 1 then base else base @ js ''_'' @ decimal n)
         # makeUniqueLoop (AList.update base n seen) hs)"

definition makeUniqueHeaders :: "jstring list \<Rightarrow> jstring list" where
  "makeUniqueHeaders headers = makeUniqueLoop [] headers"

text \<open>\<open>text.replace(/\r\n/g, "\n").replace(/\r/g, "\n")\<close>\<close>

fun replaceCRLF :: "jstring \<Rightarrow> jstring" where
  "replaceCRLF (a # b # cs) =
     (if a = 0x0D \<and> b = 0x0A then 0x0A # replaceCRLF cs else a # replaceCRLF (b # cs))"
| "replaceCRLF cs = cs"

definition replaceCR :: "jstring \<Rightarrow> jstring" where
  "replaceCR s = map (\<lambda>c. if c = 0x0D then 0x0A else c) s"

text \<open>
  The scanning loop of \<open>parseCsvText\<close> over the rest of the text, with the state
  \<open>rowsRaw\<close>, \<open>row\<close>, \<open>cur\<close>, \<open>inQuotes\<close>; at the end of the text the pending field and
  row are pushed.
\<close>

fun csvLoop :: "jstring \<Rightarrow> jstring list list \<Rightarrow> jstring list \<Rightarrow> jstring \<Rightarrow> bool
    \<Rightarrow> jstring list list" where
  "csvLoop [] rowsRaw row cur inQuotes = rowsRaw @ [row @ [cur]]"
| "csvLoop (ch # rest) rowsRaw row cur inQuotes =
     (if inQuotes then
        (if ch = 0x22 then
           (case rest of
              [] \<Rightarrow> csvLoop rest rowsRaw row cur False
            | nxt # rest' \<Rightarrow>
                if nxt = 0x22 then csvLoop rest' rowsRaw row (cur @ [0x22]) True
                else csvLoop rest rowsRaw row cur False)
         else csvLoop rest rowsRaw row (cur @ [ch]) True)
      else if ch = 0x22 then csvLoop rest rowsRaw row cur True
      else if ch = 0x2C then csvLoop rest rowsRaw (row @ [cur]) [] False
      else if ch = 0x0A then csvLoop rest (rowsRaw @ [row @ [cur]]) [] [] False
      else csvLoop rest rowsRaw row (cur @ [ch]) False)"

text \<open>The \<open>while\<close> loop that pops trailing rows whose every field is blank.\<close>

definition popBlankRows :: "jstring list list \<Rightarrow> jstring list list" where
  "popBlankRows rowsRaw = rev (dropWhile (list_all (\<lambda>v. trim v = [])) (rev rowsRaw))"

record csvDoc =
  headers :: "jstring list"
  rows :: "jsrecord list"

definition csvRecord :: "jstring list \<Rightarrow> jstring list \<Rightarrow> jsrecord" where
  "csvRecord hs arr =
     fold (\<lambda>i r. setProperty
                   (if hs ! i = [] then js ''Column'' @ decimal (i + 1) else hs ! i)
                   (Str (case nth_opt arr (int i) of None \<Rightarrow> [] | Some v \<Rightarrow> v)) r)
          [0..<length hs] []"

definition parseCsvText :: "jstring \<Rightarrow> csvDoc" where
  "parseCsvText text =
     (let s = replaceCR (replaceCRLF text);
          rowsRaw = popBlankRows (csvLoop s [] [] [] False);
          hs = map trim (case rowsRaw of [] \<Rightarrow> [] | r # _ \<Rightarrow> r);
          data = (case rowsRaw of [] \<Rightarrow> [] | _ # d \<Rightarrow> d)
      in \<lparr> headers = hs, rows = map (csvRecord hs) data \<rparr>)"

section \<open>CSV differ\<close>

type_synonym counts = "(jstring \<times> nat) list"

definition getCount :: "counts \<Rightarrow> jstring \<Rightarrow> nat" where
  "getCount m k = (case map_of m k of None \<Rightarrow> 0 | Some n \<Rightarrow> n)"

definition keyOf :: "jstring list \<Rightarrow> jsrecord \<Rightarrow> jstring" where
  "keyOf hs row = join [0x241F] (map (\<lambda>h. trim (fieldString row h)) hs)"

definition countKeys :: "jstring list \<Rightarrow> jsrecord list \<Rightarrow> counts" where
  "countKeys hs rs = fold (\<lambda>r m. AList.update (keyOf hs r) (getCount m (keyOf hs r) + 1) m) rs []"

text \<open>
  One of the two reporting loops of \<open>compareCsv\<close>: \<open>mine\<close> is the count map of the side
  being scanned (decremented as rows are reported), \<open>other\<close> the other side's map.
\<close>

fun onlyInLoop :: "jstring list \<Rightarrow> jsrecord list \<Rightarrow> counts \<Rightarrow> counts
    \<Rightarrow> jsrecord list \<times> counts" where
  "onlyInLoop hs [] mine other = ([], mine)"
| "onlyInLoop hs (r # rs) mine other =
     (let k = keyOf hs r;
          m = getCount mine k;
          ot = getCount other k
      in if m > ot then
           (let (out, mine') = onlyInLoop hs rs (AList.update k (m - 1) mine) other
            in (r # out, mine'))
         else onlyInLoop hs rs mine other)"

record compareResult =
  summary :: jstring
  onlyInLeft :: "jsrecord list"
  onlyInRight :: "jsrecord list"
  keyHeaders :: "jstring list"

text \<open>
  \<open>leftHeaders\<close>, \<open>rightHeaders\<close> and \<open>commonHeaders\<close> of \<open>compareCsv\<close>, as functions of
  the two parsed documents. The field \<open>headers\<close> of the result is named \<open>keyHeaders\<close> here.
\<close>

definition nonEmptyHeaders :: "csvDoc \<Rightarrow> jstring list" where
  "nonEmptyHeaders d = filter (\<lambda>h. h \<noteq> []) (headers d)"

definition commonHeaders :: "csvDoc \<Rightarrow> csvDoc \<Rightarrow> jstring list" where
  "commonHeaders L R = filter (\<lambda>h. h \<in> set (nonEmptyHeaders R)) (nonEmptyHeaders L)"

definition compareCsv :: "jstring \<Rightarrow> jstring \<Rightarrow> compareResult" where
  "compareCsv leftCsv rightCsv =
     (let L = parseCsvText leftCsv;
          R = parseCsvText rightCsv;
          leftHeaders = nonEmptyHeaders L;
          rightHeaders = nonEmptyHeaders R;
          headerNote =
            (if join (js ''|'') leftHeaders = join (js ''|'') rightHeaders then js ''Headers match.''
             else js ''Headers differ. Comparing on common headers: ''
                  @ decimal (length (commonHeaders L R)) @ js ''/''
                  @ decimal (max (length leftHeaders) (length rightHeaders)) @ js ''.'');
          headersForKey =
            (if commonHeaders L R \<noteq> [] then commonHeaders L R
             else makeUniqueHeaders (leftHeaders @ rightHeaders));
          leftCounts = countKeys headersForKey (rows L);
          rightCounts = countKeys headersForKey (rows R);
          (onlyL, leftCounts') = onlyInLoop headersForKey (rows L) leftCounts rightCounts;
          (onlyR, rightCounts') = onlyInLoop headersForKey (rows R) rightCounts leftCounts'
      in \<lparr> summary =
             js ''Compare result:'' @ [0x0A]
             @ js ''- Generated rows: '' @ decimal (length (rows L)) @ [0x0A]
             @ js ''- Other rows: '' @ decimal (length (rows R)) @ [0x0A]
             @ js ''- Only in generated: '' @ decimal (length onlyL) @ [0x0A]
             @ js ''- Only in other: '' @ decimal (length onlyR) @ [0x0A]
             @ js ''- '' @ headerNote,
           onlyInLeft = onlyL, onlyInRight = onlyR, keyHeaders = headersForKey \<rparr>)"

section \<open>Filter evaluation\<close>

datatype FilterOp = Eq | Neq | Lt | Gt | Like | NotLike | IsEmpty | IsNotEmpty

datatype FilterSource = Output | Sheet

record FilterCondition =
  fid :: jstring
  source :: FilterSource
  field :: jstring
  sheetRangeA1 :: jstring
  op :: FilterOp
  fvalue :: jstring

definition tryParseNumber :: "host \<Rightarrow> jstring \<Rightarrow> rat option" where
  "tryParseNumber h s =
     (let t = trim s
      in if t = [] then None else numberOf h (filter (\<lambda>c. c \<noteq> 0x2C) t))"

definition tryParseDateMs :: "host \<Rightarrow> jstring \<Rightarrow> int option" where
  "tryParseDateMs h s = (let t = trim s in if t = [] then None else dateParse h t)"

definition compareForLtGt :: "host \<Rightarrow> jstring \<Rightarrow> jstring \<Rightarrow> int option" where
  "compareForLtGt h aRaw bRaw =
     (let a = trim aRaw; b = trim bRaw
      in if a = [] \<or> b = [] then None
         else (case (tryParseNumber h a, tryParseNumber h b) of
                 (Some an, Some bn) \<Rightarrow> Some (if an = bn then 0 else if an < bn then - 1 else 1)
               | _ \<Rightarrow>
                   (case (tryParseDateMs h a, tryParseDateMs h b) of
                      (Some ad, Some bd) \<Rightarrow> Some (if ad = bd then 0 else if ad < bd then - 1 else 1)
                    | _ \<Rightarrow>
                        (let cmp = localeCompare h a b
                         in Some (if cmp = 0 then 0 else if cmp < 0 then - 1 else 1)))))"

definition isNegOp :: "FilterOp \<Rightarrow> bool" where
  "isNegOp p \<longleftrightarrow> p = Neq \<or> p = NotLike"

definition isEmptyValue :: "jstring \<Rightarrow> bool" where
  "isEmptyValue s \<longleftrightarrow> trim s = []"

text \<open>\<open>String.prototype.includes\<close>\<close>

fun isPrefixOf :: "jstring \<Rightarrow> jstring \<Rightarrow> bool" where
  "isPrefixOf [] s = True"
| "isPrefixOf (a # t) [] = False"
| "isPrefixOf (a # t) (b # s) = (a = b \<and> isPrefixOf t s)"

fun includes_js :: "jstring \<Rightarrow> jstring \<Rightarrow> bool" where
  "includes_js [] t = (t = [])"
| "includes_js (c # s) t = (isPrefixOf t (c # s) \<or> includes_js s t)"

fun evalOp :: "host \<Rightarrow> jstring \<Rightarrow> FilterOp \<Rightarrow> jstring \<Rightarrow> bool" where
  "evalOp h L IsEmpty R = isEmptyValue L"
| "evalOp h L IsNotEmpty R = (\<not> isEmptyValue L)"
| "evalOp h L Eq R = (trim L = trim R)"
| "evalOp h L Neq R = (trim L \<noteq> trim R)"
| "evalOp h L Like R = includes_js (toLowerCase h L) (toLowerCase h R)"
| "evalOp h L NotLike R = (\<not> includes_js (toLowerCase h L) (toLowerCase h R))"
| "evalOp h L Lt R = (case compareForLtGt h L R of None \<Rightarrow> False | Some cmp \<Rightarrow> cmp < 0)"
| "evalOp h L Gt R = (case compareForLtGt h L R of None \<Rightarrow> False | Some cmp \<Rightarrow> cmp > 0)"

text \<open>
  The hidden provenance of a record: \<open>typeof record.__sheetRow === "number" ?
  record.__sheetRow : null\<close>.
\<close>

definition numField :: "jsrecord \<Rightarrow> jstring \<Rightarrow> int option" where
  "numField record k = (case map_of record k of Some (Num n) \<Rightarrow> Some n | _ \<Rightarrow> None)"

definition inRange :: "RangeA1 \<Rightarrow> int \<Rightarrow> int \<Rightarrow> bool" where
  "inRange rng r c \<longleftrightarrow> r \<ge> r0 rng \<and> r \<le> r1 rng \<and> c \<ge> c0 rng \<and> c \<le> c1 rng"

text \<open>
  \<open>rowIdx !== null\<close> is \<open>rowIdx \<noteq> None\<close>; \<open>the rowIdx\<close> is read only under that guard.
\<close>

definition sheetValuesAuto :: "host \<Rightarrow> jsrecord \<Rightarrow> FilterCondition \<Rightarrow> Grid \<Rightarrow> jstring list" where
  "sheetValuesAuto h record f grid =
     (case parseA1Range h (trim (sheetRangeA1 f)) of
        None \<Rightarrow> []
      | Some parsed \<Rightarrow>
          (let rng = normalizeRange parsed grid;
               rowIdx = numField record (js ''__sheetRow'');
               colIdx = numField record (js ''__sheetCol'');
               isSingleCol = (c0 rng = c1 rng);
               isSingleRow = (r0 rng = r1 rng);
               isSingleCell = (isSingleRow \<and> isSingleCol)
           in if isSingleCell then
                (if rowIdx \<noteq> None \<and> colIdx \<noteq> None \<and> inRange rng (the rowIdx) (the colIdx)
                 then [cell grid (the rowIdx) (the colIdx)]
                 else [])
              else if rowIdx \<noteq> None \<and> colIdx \<noteq> None \<and> inRange rng (the rowIdx) (the colIdx)
                then [cell grid (the rowIdx) (the colIdx)]
              else if isSingleCol \<and> rowIdx \<noteq> None \<and> the rowIdx \<ge> r0 rng \<and> the rowIdx \<le> r1 rng
                then [cell grid (the rowIdx) (c0 rng)]
              else if isSingleRow \<and> colIdx \<noteq> None \<and> the colIdx \<ge> c0 rng \<and> the colIdx \<le> c1 rng
                then [cell grid (r0 rng) (the colIdx)]
              else if rowIdx \<noteq> None \<and> the rowIdx \<ge> r0 rng \<and> the rowIdx \<le> r1 rng
                then map (\<lambda>c. cell grid (the rowIdx) c) [c0 rng..c1 rng]
              else if colIdx \<noteq> None \<and> the colIdx \<ge> c0 rng \<and> the colIdx \<le> c1 rng
                then map (\<lambda>r. cell grid r (the colIdx)) [r0 rng..r1 rng]
              else concat (getRange2D grid rng)))"

text \<open>
  The left-hand values of one condition, as the body of the loop of \<open>passesFilters\<close>
  resolves them.
\<close>

definition leftValues :: "host \<Rightarrow> jsrecord \<Rightarrow> FilterCondition \<Rightarrow> Grid \<Rightarrow> jstring list" where
  "leftValues h record f grid =
     (if source f = Output then [fieldString record (field f)]
      else sheetValuesAuto h record f grid)"

fun passesFilters :: "host \<Rightarrow> jsrecord \<Rightarrow> FilterCondition list \<Rightarrow> Grid \<Rightarrow> bool" where
  "passesFilters h record [] grid = True"
| "passesFilters h record (f # fs) grid =
     (let right = fvalue f;
          neg = isNegOp (op f);
          lvs = leftValues h record f grid
      in if lvs = [] then (if \<not> neg then False else passesFilters h record fs grid)
         else if op f = IsEmpty \<or> op f = IsNotEmpty then
           (if \<not> list_ex (\<lambda>lv. evalOp h lv (op f) []) lvs then False
            else passesFilters h record fs grid)
         else if \<not> neg then
           (if \<not> list_ex (\<lambda>lv. evalOp h lv (op f) right) lvs then False
            else passesFilters h record fs grid)
         else
           (if \<not> list_all (\<lambda>lv. evalOp h lv (op f) right) lvs then False
            else passesFilters h record fs grid))"

definition applyFiltersToRows :: "host \<Rightarrow> jsrecord list \<Rightarrow> FilterCondition list \<Rightarrow> Grid
    \<Rightarrow> jsrecord list" where
  "applyFiltersToRows h rs filters grid =
     (if filters = [] then rs else filter (\<lambda>r. passesFilters h r filters grid) rs)"

section \<open>Deduplicator\<close>

record duplicates =
  groups :: nat
  dupRowCount :: nat
  duplicateRows :: "jsrecord list"

definition findDuplicates :: "jsrecord list \<Rightarrow> jstring list \<Rightarrow> duplicates" where
  "findDuplicates rs hs =
     (let cnts = countKeys hs rs;
          dups = filter (\<lambda>r. getCount cnts (keyOf hs r) > 1) rs
      in \<lparr> groups = length (filter (\<lambda>n. n > 1) (map snd cnts)),
           dupRowCount = length dups,
           duplicateRows = dups \<rparr>)"

section \<open>Records mode\<close>

record ColumnSpec =
  header :: jstring
  rangesA1 :: "jstring list"

text \<open>\<open>Set.prototype.add\<close> on a set kept in insertion order.\<close>

definition setAdd :: "'a \<Rightarrow> 'a list \<Rightarrow> 'a list" where
  "setAdd x xs = (if x \<in> set xs then xs else xs @ [x])"

text \<open>\<open>k.match(/^([rc]):(\d+)$/)\<close>\<close>

definition parseRoleKey :: "RoleKey \<Rightarrow> (keyKind \<times> int) option" where
  "parseRoleKey k =
     (case k of
        t # colon # ds \<Rightarrow>
          if (t = 0x72 \<or> t = 0x63) \<and> colon = 0x3A \<and> ds \<noteq> [] \<and> list_all isDigit ds
          then Some (if t = 0x72 then RowKind else ColKind, parseDigits ds)
          else None
      | _ \<Rightarrow> None)"

text \<open>
  The body of the loop over the ranges of one column; the state is \<open>warnings\<close>,
  \<open>merged\<close> and \<open>headerKeyKind\<close>.
\<close>

definition quoted :: "jstring \<Rightarrow> jstring" where
  "quoted s = [0x22] @ s @ [0x22]"

definition rangeStep :: "host \<Rightarrow> Grid \<Rightarrow> jstring \<Rightarrow> jstring
    \<Rightarrow> jstring list \<times> (RoleKey \<times> jstring) list \<times> keyKind option
    \<Rightarrow> jstring list \<times> (RoleKey \<times> jstring) list \<times> keyKind option" where
  "rangeStep h grid outHeader a1 st =
     (case st of (warnings, merged, headerKeyKind) \<Rightarrow>
        (let t = trim a1
         in if t = [] then st
            else (case parseA1Range h t of
                    None \<Rightarrow>
                      (warnings @ [js ''Invalid range for '' @ quoted outHeader @ js '': '' @ quoted t],
                       merged, headerKeyKind)
                  | Some parsed \<Rightarrow>
                      (let rm = getRolesMap grid parsed;
                           w1 = (case warning rm of
                                   None \<Rightarrow> warnings
                                 | Some w \<Rightarrow>
                                     warnings @ [quoted outHeader @ js '' ('' @ t @ js ''): '' @ w]);
                           w2 = (case headerKeyKind of
                                   None \<Rightarrow> w1
                                 | Some kk \<Rightarrow>
                                     if kk = keyKind rm then w1
                                     else w1 @ [quoted outHeader @
                                       js '': mixed orientations across ranges (row-based + col-based). Results will be combined.'']);
                           hk = (case headerKeyKind of None \<Rightarrow> Some (keyKind rm) | Some kk \<Rightarrow> Some kk)
                       in (w2, fold (\<lambda>(k, v) m. AList.update k v m) (rmap rm) merged, hk)))))"

text \<open>
  \<open>colMaps\<close> is an object used as a dictionary from output headers to maps: the
  association list of its own properties, and the map that an assignment to \<open>__proto__\<close>
  has made its prototype, if any (the inherited setter takes an object as the new
  prototype and creates no own property).
\<close>

type_synonym roleMap = "(RoleKey \<times> jstring) list"

type_synonym colMaps = "(jstring \<times> roleMap) list \<times> roleMap option"

text \<open>\<open>colMaps[outHeader] = merged\<close>\<close>

definition setColMap :: "jstring \<Rightarrow> roleMap \<Rightarrow> colMaps \<Rightarrow> colMaps" where
  "setColMap outHeader merged cm =
     (case cm of (own, proto) \<Rightarrow>
        if outHeader = js ''__proto__'' \<and> map_of own outHeader = None then (own, Some merged)
        else (AList.update outHeader merged own, proto))"

text \<open>The string-named members of \<open>Map.prototype\<close> (ECMAScript 2023).\<close>

definition mapPrototypeNames :: "jstring list" where
  "mapPrototypeNames =
     [js ''constructor'', js ''get'', js ''set'', js ''has'', js ''delete'', js ''clear'',
      js ''entries'', js ''forEach'', js ''keys'', js ''size'', js ''values'']"

text \<open>
  \<open>colMaps[h]?.get(k) ?? ""\<close>. An own property is a map. Without one, \<open>__proto__\<close>
  reads the prototype: the map put there, or \<open>Object.prototype\<close>, which has no \<open>get\<close>, so
  that the call throws a TypeError. Any other name inherited from \<open>Object.prototype\<close>,
  or from \<open>Map.prototype\<close> once a map is the prototype, is a function without a \<open>get\<close>
  (or the getter \<open>size\<close>, which rejects the receiver): a TypeError again. Every other
  name is undefined, and the value is the empty string.
\<close>

definition colMapGet :: "colMaps \<Rightarrow> jstring \<Rightarrow> RoleKey \<Rightarrow> jsError + jstring" where
  "colMapGet cm h k =
     (case cm of (own, proto) \<Rightarrow>
        (case map_of own h of
           Some m \<Rightarrow> Inr (case map_of m k of None \<Rightarrow> [] | Some v \<Rightarrow> v)
         | None \<Rightarrow>
             if h = js ''__proto__'' then
               (case proto of
                  Some m \<Rightarrow> Inr (case map_of m k of None \<Rightarrow> [] | Some v \<Rightarrow> v)
                | None \<Rightarrow> Inl TypeError)
             else if h \<in> set (map fst objectPrototype)
                     \<or> (proto \<noteq> None \<and> h \<in> set mapPrototypeNames)
             then Inl TypeError
             else Inr []))"

text \<open>
  The body of the loop over \<open>rolesColumns\<close>; the state is \<open>warnings\<close>, \<open>colMaps\<close> and
  \<open>allKeys\<close>.
\<close>

definition columnStep :: "host \<Rightarrow> Grid \<Rightarrow> (jstring \<times> jstring) list \<Rightarrow> ColumnSpec
    \<Rightarrow> jstring list \<times> colMaps \<times> RoleKey list
    \<Rightarrow> jstring list \<times> colMaps \<times> RoleKey list" where
  "columnStep h grid headerMap col st =
     (case st of (warnings, colMaps, allKeys) \<Rightarrow>
        (let userHeader = trim (header col)
         in if userHeader = [] then st
            else (let outHeader = (case map_of headerMap userHeader of
                                     None \<Rightarrow> userHeader | Some x \<Rightarrow> x);
                      (warnings', merged, hk) =
                        fold (rangeStep h grid outHeader) (rangesA1 col) (warnings, [], None)
                  in (warnings', setColMap outHeader merged colMaps,
                      fold setAdd (map fst merged) allKeys))))"

text \<open>
  \<open>Array.prototype.sort\<close> with a comparator is stable: an insertion sort that puts an
  element before the first later element it does not exceed.
\<close>

fun insertBy :: "('a \<Rightarrow> 'a \<Rightarrow> int) \<Rightarrow> 'a \<Rightarrow> 'a list \<Rightarrow> 'a list" where
  "insertBy cmp x [] = [x]"
| "insertBy cmp x (y # ys) = (if cmp x y \<le> 0 then x # y # ys else y # insertBy cmp x ys)"

definition sortBy :: "('a \<Rightarrow> 'a \<Rightarrow> int) \<Rightarrow> 'a list \<Rightarrow> 'a list" where
  "sortBy cmp xs = foldr (insertBy cmp) xs []"

definition roleKeyCompare :: "host \<Rightarrow> RoleKey \<Rightarrow> RoleKey \<Rightarrow> int" where
  "roleKeyCompare h a b =
     (case (parseRoleKey a, parseRoleKey b) of
        (Some (ka, ia), Some (kb, ib)) \<Rightarrow>
          if ka \<noteq> kb then (if ka = RowKind then - 1 else 1) else ia - ib
      | _ \<Rightarrow> localeCompare h a b)"

text \<open>
  The loop \<open>for (const h of headers) record[h] = colMaps[h]?.get(k) ?? ""\<close>, which
  stops at the first header whose read throws.
\<close>

fun fillRecord :: "colMaps \<Rightarrow> RoleKey \<Rightarrow> jstring list \<Rightarrow> jsrecord \<Rightarrow> jsError + jsrecord" where
  "fillRecord colMaps k [] record = Inr record"
| "fillRecord colMaps k (h # hs) record =
     (case colMapGet colMaps h k of
        Inl e \<Rightarrow> Inl e
      | Inr v \<Rightarrow> fillRecord colMaps k hs (setProperty h (Str v) record))"

text \<open>The record of one key, before the checks that may discard it.\<close>

definition buildRecord :: "jstring list \<Rightarrow> colMaps \<Rightarrow> RoleKey \<Rightarrow> jsError + jsrecord" where
  "buildRecord hs colMaps k =
     (let start = (case parseRoleKey k of
                     Some (RowKind, idx) \<Rightarrow> [(js ''__sheetRow'', Num idx)]
                   | Some (ColKind, idx) \<Rightarrow> [(js ''__sheetCol'', Num idx)]
                   | None \<Rightarrow> [])
      in fillRecord colMaps k hs start)"

definition hasAny :: "jsrecord \<Rightarrow> bool" where
  "hasAny record =
     list_ex (\<lambda>(kk, v). trim (valToString v) \<noteq> [])
       (filter (\<lambda>(kk, v). kk \<noteq> js ''__sheetRow'' \<and> kk \<noteq> js ''__sheetCol'') record)"

text \<open>
  The loop over \<open>sortedKeys\<close>: \<open>build\<close> makes the record of a key and \<open>keep\<close> is the
  conjunction of the two checks; an exception ends the loop.
\<close>

fun rowsLoop :: "(RoleKey \<Rightarrow> jsError + jsrecord) \<Rightarrow> (jsrecord \<Rightarrow> bool) \<Rightarrow> RoleKey list
    \<Rightarrow> jsError + jsrecord list" where
  "rowsLoop build keep [] = Inr []"
| "rowsLoop build keep (k # ks) =
     (case build k of
        Inl e \<Rightarrow> Inl e
      | Inr record \<Rightarrow>
          (case rowsLoop build keep ks of
             Inl e \<Rightarrow> Inl e
           | Inr rs \<Rightarrow> Inr (if keep record then record # rs else rs)))"

record recordsTable =
  tableHeaders :: "jstring list"
  tableRows :: "jsrecord list"
  tableWarnings :: "jstring list"
  sortedKeys :: "RoleKey list"
  thrown :: "jsError option"

text \<open>
  \<open>generateRecordsCsv\<close> up to the list \<open>rows\<close> (before the filters), for a non-empty
  grid and at least one header. A run that throws in the loop produces no rows, and
  \<open>thrown\<close> holds its exception.
\<close>

definition recordsTable :: "host \<Rightarrow> ColumnSpec list \<Rightarrow> jstring \<Rightarrow> Grid \<Rightarrow> recordsTable" where
  "recordsTable h rolesColumns requiredRoleHeader grid =
     (let headersRaw = filter (\<lambda>x. x \<noteq> []) (map (\<lambda>c. trim (header c)) rolesColumns);
          hs = makeUniqueHeaders headersRaw;
          headerMap = fold (\<lambda>(raw, u) m. AList.update raw u m) (zip headersRaw hs) [];
          (warnings, colMaps, allKeys) =
            fold (columnStep h grid headerMap) rolesColumns ([], ([], None), []);
          sorted = sortBy (roleKeyCompare h) allKeys;
          reqUser = trim requiredRoleHeader;
          reqOut = (if reqUser \<noteq> [] then (case map_of headerMap reqUser of
                                             None \<Rightarrow> reqUser | Some x \<Rightarrow> x)
                    else []);
          useRequired = (reqOut \<noteq> [] \<and> reqOut \<in> set hs);
          looped = rowsLoop (buildRecord hs colMaps)
                     (\<lambda>record. hasAny record
                        \<and> \<not> (useRequired \<and> trim (fieldString record reqOut) = []))
                     sorted
      in \<lparr> tableHeaders = hs,
           tableRows = (case looped of Inl e \<Rightarrow> [] | Inr rs \<Rightarrow> rs),
           tableWarnings = warnings, sortedKeys = sorted,
           thrown = (case looped of Inl e \<Rightarrow> Some e | Inr rs \<Rightarrow> None) \<rparr>)"

record generated =
  csv :: jstring
  warnings :: "jstring list"
  dupCsv :: jstring

text \<open>
  \<open>generateRecordsCsv\<close>: the exception it throws, or the three pieces of state it sets;
  \<open>None\<close> when it returns without setting them (empty grid).
\<close>

definition generateRecordsCsv :: "host \<Rightarrow> ColumnSpec list \<Rightarrow> jstring \<Rightarrow> FilterCondition list
    \<Rightarrow> Grid \<Rightarrow> jsError + generated option" where
  "generateRecordsCsv h rolesColumns requiredRoleHeader rolesFilters grid =
     (if grid = [] then Inr None
      else if makeUniqueHeaders (filter (\<lambda>x. x \<noteq> []) (map (\<lambda>c. trim (header c)) rolesColumns)) = []
      then Inr (Some \<lparr> csv = [], warnings = [js ''No headers defined.''], dupCsv = [] \<rparr>)
      else
        (let t = recordsTable h rolesColumns requiredRoleHeader grid;
             filtered = applyFiltersToRows h (tableRows t) rolesFilters grid;
             producedRowKeys = length (filter (\<lambda>k. map_option fst (parseRoleKey k) = Some RowKind)
                                         (sortedKeys t));
             producedColKeys = length (filter (\<lambda>k. map_option fst (parseRoleKey k) = Some ColKind)
                                         (sortedKeys t));
             isColumnBased = (producedColKeys > 0 \<and> producedColKeys \<ge> producedRowKeys);
             w1 = (if rolesFilters \<noteq> [] then
                     tableWarnings t @
                       [js ''Filters applied: kept '' @ decimal (length filtered) @ js ''/''
                        @ decimal (length (tableRows t)) @ js '' ''
                        @ (if isColumnBased then js ''columns'' else js ''rows'') @ js ''.'']
                   else tableWarnings t);
             d = findDuplicates filtered (tableHeaders t)
         in case thrown t of
              Some e \<Rightarrow> Inl e
            | None \<Rightarrow>
                if dupRowCount d > 0 then
                  Inr (Some \<lparr> csv = toCsv (tableHeaders t) filtered,
                         warnings = w1 @ [js ''Duplicates found: '' @ decimal (dupRowCount d)
                            @ js '' rows in '' @ decimal (groups d) @ js '' duplicate group(s).''],
                         dupCsv = toCsv (tableHeaders t) (duplicateRows d) \<rparr>)
                else
                  Inr (Some \<lparr> csv = toCsv (tableHeaders t) filtered,
                         warnings = w1 @ [js ''Duplicates found: 0''],
                         dupCsv = [] \<rparr>)))"

section \<open>Assignments mode\<close>

record assignConfig =
  assignAHeader :: jstring
  assignBHeader :: jstring
  assignObjARange :: jstring
  assignObjBRange :: jstring
  assignMatrixRange :: jstring
  assignMarkValues :: jstring
  assignExtraColumns :: "ColumnSpec list"
  assignFilters :: "FilterCondition list"

definition autoValueForRange :: "host \<Rightarrow> Grid \<Rightarrow> jsrecord \<Rightarrow> jstring \<Rightarrow> jstring" where
  "autoValueForRange h grid record rangeA1 =
     (let vals = sheetValuesAuto h record
                   \<lparr> fid = js ''tmp'', source = Sheet, field = [], sheetRangeA1 = rangeA1,
                     op = Like, fvalue = [] \<rparr> grid;
          cleaned = filter (\<lambda>v. v \<noteq> []) (map trim vals)
      in if cleaned = [] then []
         else if length cleaned = 1 then hd cleaned
         else join (js '' '') cleaned)"

definition autoValueForRanges :: "host \<Rightarrow> Grid \<Rightarrow> jsrecord \<Rightarrow> jstring list \<Rightarrow> jstring" where
  "autoValueForRanges h grid record ranges =
     (let parts = filter (\<lambda>v. v \<noteq> [])
                    (map (\<lambda>r. autoValueForRange h grid record (trim r))
                       (filter (\<lambda>r. trim r \<noteq> []) ranges))
      in if parts = [] then []
         else if length parts = 1 then hd parts
         else join (js '' '') parts)"

text \<open>
  What the body of the double loop over the matrix does with the cell at matrix-relative
  row \<open>i\<close> and column \<open>j\<close>: nothing (the cell is no mark), one of the three skip
  counters, or a pair with its provenance.
\<close>

datatype markOutcome =
  NotMarked | OutOfBounds | MissingA | MissingB | Pair jstring jstring int int

text \<open>
  \<open>idxA\<close> and \<open>idxB\<close> of the loop body, from the absolute row and column of the cell:
  Object A is read by rows when it is a single column (\<open>objAisVertical\<close>), Object B by
  columns when it is a single row (\<open>objBisHorizontal\<close>).
\<close>

definition idxA :: "RangeA1 \<Rightarrow> int \<Rightarrow> int \<Rightarrow> int" where
  "idxA objAR absRow absCol =
     (if c0 objAR = c1 objAR then absRow - r0 objAR else absCol - c0 objAR)"

definition idxB :: "RangeA1 \<Rightarrow> int \<Rightarrow> int \<Rightarrow> int" where
  "idxB objBR absRow absCol =
     (if r0 objBR = r1 objBR then absCol - c0 objBR else absRow - r0 objBR)"

definition markOutcomeAt :: "host \<Rightarrow> jstring list \<Rightarrow> RangeA1 \<Rightarrow> RangeA1 \<Rightarrow> RangeA1
    \<Rightarrow> jstring list \<Rightarrow> jstring list \<Rightarrow> jstring list list \<Rightarrow> nat \<Rightarrow> nat \<Rightarrow> markOutcome" where
  "markOutcomeAt h markSet objAR objBR matR objA objB matrix i j =
     (let cel = trim (matrix ! i ! j)
      in if cel = [] then NotMarked
         else if toLowerCase h cel \<notin> set markSet then NotMarked
         else
           (let absRow = r0 matR + int i;
                absCol = c0 matR + int j;
                ia = idxA objAR absRow absCol;
                ib = idxB objBR absRow absCol
            in if ia < 0 \<or> ia \<ge> int (length objA) \<or> ib < 0 \<or> ib \<ge> int (length objB)
               then OutOfBounds
               else
                 (let left = trim (objA ! nat ia);
                      right = trim (objB ! nat ib)
                  in if left = [] then MissingA
                     else if right = [] then MissingB
                     else Pair left right absRow absCol)))"

text \<open>
  The record of an emitted pair: the object literal, whose computed keys define own
  properties, then the extra columns in order, each one assigned
  (\<open>extraHeadersUnique[k]\<close> is read at the position \<open>k\<close> of the column in
  \<open>assignExtraColumns\<close>).
\<close>

definition pairRecord :: "host \<Rightarrow> Grid \<Rightarrow> jstring \<Rightarrow> jstring \<Rightarrow> jstring list \<Rightarrow> ColumnSpec list
    \<Rightarrow> jstring \<Rightarrow> jstring \<Rightarrow> int \<Rightarrow> int \<Rightarrow> jsrecord" where
  "pairRecord h grid baseAHeader baseBHeader extraHeadersUnique extras left right absRow absCol =
     fold (\<lambda>k record.
             if trim (header (extras ! k)) = [] then record
             else (case nth_opt extraHeadersUnique (int k) of
                     None \<Rightarrow> record
                   | Some outH \<Rightarrow>
                       if outH = [] then record
                       else setProperty outH
                              (Str (autoValueForRanges h grid record (rangesA1 (extras ! k)))) record))
          [0..<length extras]
          (AList.update (js ''__sheetCol'') (Num absCol)
             (AList.update (js ''__sheetRow'') (Num absRow)
                (AList.update baseBHeader (Str right)
                   (AList.update baseAHeader (Str left) []))))"

record assignTable =
  outRows :: "jsrecord list"
  outcomes :: "markOutcome list"
  allHeadersUnique :: "jstring list"

definition isPair :: "markOutcome \<Rightarrow> bool" where
  "isPair x = (case x of Pair l r ar ac \<Rightarrow> True | _ \<Rightarrow> False)"

text \<open>
  \<open>generateAssignmentsCsv\<close> up to the end of the double loop, for a non-empty grid:
  \<open>Inl\<close> carries the warnings of a run that stops before the loop.
\<close>

definition assignTable :: "host \<Rightarrow> assignConfig \<Rightarrow> Grid \<Rightarrow> jstring list + assignTable" where
  "assignTable h cfg grid =
     (case (parseA1Range h (assignObjARange cfg), parseA1Range h (assignObjBRange cfg),
            parseA1Range h (assignMatrixRange cfg)) of
        (Some aR0, Some bR0, Some mR0) \<Rightarrow>
          (let objAR = normalizeRange aR0 grid;
               objBR = normalizeRange bR0 grid;
               matR = normalizeRange mR0 grid;
               objAisVertical = (c0 objAR = c1 objAR);
               objAisHorizontal = (r0 objAR = r1 objAR);
               objBisVertical = (c0 objBR = c1 objBR);
               objBisHorizontal = (r0 objBR = r1 objBR);
               ws = (if \<not> (objAisVertical \<or> objAisHorizontal)
                     then [js ''Object A range must be a single column or single row.''] else [])
                    @ (if \<not> (objBisVertical \<or> objBisHorizontal)
                       then [js ''Object B range must be a single column or single row.''] else [])
           in if ws \<noteq> [] then Inl ws
              else
                (let objA = map trim (getRangeVector grid objAR);
                     objB = map trim (getRangeVector grid objBR);
                     matrix = map (map trim) (getRange2D grid matR);
                     marks = filter (\<lambda>m. m \<noteq> []) (map trim (splitOn 0x2C (assignMarkValues cfg)));
                     markSet = map (toLowerCase h) marks;
                     baseHeadersRaw =
                       [if trim (assignAHeader cfg) = [] then js ''ObjectA'' else trim (assignAHeader cfg),
                        if trim (assignBHeader cfg) = [] then js ''ObjectB'' else trim (assignBHeader cfg)];
                     extraHeadersRaw = filter (\<lambda>x. x \<noteq> [])
                                         (map (\<lambda>c. trim (header c)) (assignExtraColumns cfg));
                     allHs = makeUniqueHeaders (baseHeadersRaw @ extraHeadersRaw);
                     baseAHeader = allHs ! 0;
                     baseBHeader = allHs ! 1;
                     extraHeadersUnique = drop 2 allHs;
                     outs = concat (map (\<lambda>i. map (\<lambda>j. markOutcomeAt h markSet objAR objBR matR
                                                          objA objB matrix i j)
                                                 [0..<length (matrix ! i)])
                                      [0..<length matrix]);
                     recs = concat (map (\<lambda>x. case x of
                                           Pair left right absRow absCol \<Rightarrow>
                                             [pairRecord h grid baseAHeader baseBHeader
                                                extraHeadersUnique (assignExtraColumns cfg)
                                                left right absRow absCol]
                                         | _ \<Rightarrow> []) outs)
                 in Inr \<lparr> outRows = recs, outcomes = outs, allHeadersUnique = allHs \<rparr>))
      | _ \<Rightarrow> Inl [js ''Please provide valid ranges for Object A, Object B, and Matrix.''])"

text \<open>
  \<open>generateAssignmentsCsv\<close>: the three pieces of state it sets; \<open>None\<close> when it returns
  without setting them (empty grid). The counters of the source are the numbers of
  outcomes of each kind.
\<close>

definition generateAssignmentsCsv :: "host \<Rightarrow> assignConfig \<Rightarrow> Grid \<Rightarrow> generated option" where
  "generateAssignmentsCsv h cfg grid =
     (if grid = [] then None
      else (case assignTable h cfg grid of
              Inl ws \<Rightarrow> Some \<lparr> csv = [], warnings = ws, dupCsv = [] \<rparr>
            | Inr t \<Rightarrow>
                (let totalMarked = length (filter (\<lambda>x. x \<noteq> NotMarked) (outcomes t));
                     emitted = length (filter isPair (outcomes t));
                     skippedOutOfBounds = length (filter (\<lambda>x. x = OutOfBounds) (outcomes t));
                     skippedMissingA = length (filter (\<lambda>x. x = MissingA) (outcomes t));
                     skippedMissingB = length (filter (\<lambda>x. x = MissingB) (outcomes t));
                     w0 = [js ''Marks found: '' @ decimal totalMarked
                           @ js '', emitted: '' @ decimal emitted
                           @ js '', skippedOutOfBounds: '' @ decimal skippedOutOfBounds
                           @ js '', skippedMissingA: '' @ decimal skippedMissingA
                           @ js '', skippedMissingB: '' @ decimal skippedMissingB];
                     w1 = (if outRows t = []
                           then w0 @ [js ''No assignments found. Check mark values and ranges.'']
                           else w0);
                     filtered = applyFiltersToRows h (outRows t) (assignFilters cfg) grid;
                     w2 = (if assignFilters cfg \<noteq> [] then
                             w1 @ [js ''Filters applied: kept '' @ decimal (length filtered)
                                   @ js ''/'' @ decimal (length (outRows t)) @ js '' rows.'']
                           else w1);
                     d = findDuplicates filtered (allHeadersUnique t)
                 in if dupRowCount d > 0 then
                      Some \<lparr> csv = toCsv (allHeadersUnique t) filtered,
                             warnings = w2 @ [js ''Duplicates found: '' @ decimal (dupRowCount d)
                                @ js '' rows in '' @ decimal (groups d) @ js '' duplicate group(s).''],
                             dupCsv = toCsv (allHeadersUnique t) (duplicateRows d) \<rparr>
                    else
                      Some \<lparr> csv = toCsv (allHeadersUnique t) filtered,
                             warnings = w2 @ [js ''Duplicates found: 0''],
                             dupCsv = [] \<rparr>)))"

section \<open>Example data\<close>

text \<open>A sheet whose cells B2, B3, B4 hold x, y, z.\<close>

definition recordsGrid :: Grid where
  "recordsGrid =
     [[js ''h0'', js ''h1''], [js ''a'', js ''x''], [js ''b'', js ''y''], [js ''c'', js ''z'']]"

text \<open>A host whose case mappings are the ASCII ones; the other built-ins are arbitrary.\<close>

definition asciiHost :: "(jstring \<Rightarrow> rat option) \<Rightarrow> (jstring \<Rightarrow> int option)
    \<Rightarrow> (jstring \<Rightarrow> jstring \<Rightarrow> int) \<Rightarrow> host" where
  "asciiHost nf dp lcmp =
     \<lparr> toUpperCase = asciiUpper, toLowerCase = asciiLower, numberOf = nf, dateParse = dp,
       localeCompare = lcmp \<rparr>"

text \<open>A sheet with padded cells.\<close>

definition paddedGrid :: Grid where
  "paddedGrid = [[js '' x '', js ''  ''], [js ''y  '', js '' z'']]"

text \<open>
  A record of Records mode (its provenance is a row only) and two filter conditions: one
  on the sheet cell B2, one on an output field.
\<close>

definition sheetCond :: "FilterOp \<Rightarrow> FilterCondition" where
  "sheetCond p = \<lparr> fid = js ''f1'', source = Sheet, field = [], sheetRangeA1 = js ''B2'',
                   op = p, fvalue = js ''test'' \<rparr>"

definition outputCond :: "FilterOp \<Rightarrow> FilterCondition" where
  "outputCond p = \<lparr> fid = js ''f2'', source = Output, field = js ''Name'', sheetRangeA1 = [],
                   op = p, fvalue = js ''test'' \<rparr>"

definition rowRecord :: jsrecord where
  "rowRecord = [(js ''__sheetRow'', Num 0), (js ''Other'', Str (js ''v''))]"

text \<open>Three output rows, the first two equal.\<close>

definition dupRows :: "jsrecord list" where
  "dupRows = [[(js ''a'', Str (js ''1'')), (js ''b'', Str (js ''2''))],
              [(js ''a'', Str (js ''1'')), (js ''b'', Str (js ''2''))],
              [(js ''a'', Str (js ''3'')), (js ''b'', Str (js ''4''))]]"

text \<open>A 3 by 3 sheet whose cells hold their own A1 names, a record with a full provenance
  and a sheet-sourced condition on a range.\<close>

definition coordGrid :: Grid where
  "coordGrid = [[js ''A1'', js ''B1'', js ''C1''],
                [js ''A2'', js ''B2'', js ''C2''],
                [js ''A3'', js ''B3'', js ''C3'']]"

definition provRecord :: "int \<Rightarrow> int \<Rightarrow> jsrecord" where
  "provRecord r c = [(js ''__sheetRow'', Num r), (js ''__sheetCol'', Num c)]"

definition rangeCond :: "jstring \<Rightarrow> FilterCondition" where
  "rangeCond a1 = \<lparr> fid = js ''f'', source = Sheet, field = [], sheetRangeA1 = a1,
                    op = Eq, fvalue = [] \<rparr>"

text \<open>Two CSV texts of one data row each, with the headers a and b.\<close>

definition csvA :: jstring where
  "csvA = js ''a'' @ [0x0A] @ js ''1''"

definition csvB :: jstring where
  "csvB = js ''b'' @ [0x0A] @ js ''1''"

text \<open>
  The sheet of the Assignments example: Object A in A1:A2 holds R1, R2, Object B in B1:D1
  holds E1, E2, E3, and the matrix B2:D3 holds X at its row 0, column 1 (the cell C2) and at
  its row 1, column 2 (the cell D3).
\<close>

definition assignGrid :: Grid where
  "assignGrid = [[js ''R1'', js ''E1'', js ''E2'', js ''E3''],
                 [js ''R2'', [], js ''X'', []],
                 [[], [], [], js ''X'']]"

definition assignCfg :: assignConfig where
  "assignCfg = \<lparr> assignAHeader = js ''A'', assignBHeader = js ''B'',
                  assignObjARange = js ''A1:A2'', assignObjBRange = js ''B1:D1'',
                  assignMatrixRange = js ''B2:D3'', assignMarkValues = js ''X'',
                  assignExtraColumns = [], assignFilters = [] \<rparr>"

text \<open>
  A host for closed examples over ASCII text; the examples that use it never reach its
  number parser, date parser or collation.
\<close>

definition exampleHost :: host where
  "exampleHost = asciiHost (\<lambda>s. None) (\<lambda>s. None) (\<lambda>a b. 0)"

text \<open>
  Two records under the headers a and b: one with a comma, quotes and a line feed in its
  values, and a last one whose values are blank.
\<close>

definition csvRows :: "jsrecord list" where
  "csvRows = [[(js ''a'', Str (js ''x,1'')), (js ''b'', Str ([0x22] @ js ''q'' @ [0x22, 0x0A] @ js ''z''))],
              [(js ''a'', Str []), (js ''b'', Str (js '' ''))]]"

section \<open>Predicates of the statements\<close>

text \<open>Every stored value is whitespace-trimmed: of a key map, of the maps of all columns,
  and of the string fields of a record.\<close>

definition trimmedMap :: "(RoleKey \<times> jstring) list \<Rightarrow> bool" where
  "trimmedMap m \<longleftrightarrow> (\<forall>(k, v) \<in> set m. trim v = v)"

definition trimmedCols :: "colMaps \<Rightarrow> bool" where
  "trimmedCols cm \<longleftrightarrow>
     (\<forall>(hdr, m) \<in> set (fst cm). trimmedMap m) \<and> (\<forall>m. snd cm = Some m \<longrightarrow> trimmedMap m)"

definition trimmedRecord :: "jsrecord \<Rightarrow> bool" where
  "trimmedRecord r \<longleftrightarrow> (\<forall>(k, x) \<in> set r. case x of Str v \<Rightarrow> trim v = v | Num n \<Rightarrow> True)"

text \<open>How many of the rows have the key \<open>k\<close> under the headers \<open>hs\<close>.\<close>

definition occurrences :: "jstring list \<Rightarrow> jsrecord list \<Rightarrow> jstring \<Rightarrow> nat" where
  "occurrences hs rs k = count_list (map (keyOf hs) rs) k"

text \<open>
  The outcome of a matrix cell stated in sheet coordinates, for the cell at the absolute
  row \<open>ar\<close> and column \<open>ac\<close>: the label of Object A is the cell of Object A's column in
  the row \<open>ar\<close> when Object A is a single column, and the cell of Object A's row in the
  column \<open>ac\<close> otherwise; the cell is aligned with Object A when that row (column) is one
  of Object A's. Object B is read by columns when it is a single row, by rows otherwise.
  \<open>cellPos\<close> is the position of the cell in the row-by-row scan of the matrix.
\<close>

definition alignedA :: "RangeA1 \<Rightarrow> int \<Rightarrow> int \<Rightarrow> bool" where
  "alignedA objAR ar ac =
     (if c0 objAR = c1 objAR then r0 objAR \<le> ar \<and> ar \<le> r1 objAR
      else c0 objAR \<le> ac \<and> ac \<le> c1 objAR)"

definition labelA :: "Grid \<Rightarrow> RangeA1 \<Rightarrow> int \<Rightarrow> int \<Rightarrow> jstring" where
  "labelA grid objAR ar ac =
     (if c0 objAR = c1 objAR then trim (cell grid ar (c0 objAR))
      else trim (cell grid (r0 objAR) ac))"

definition alignedB :: "RangeA1 \<Rightarrow> int \<Rightarrow> int \<Rightarrow> bool" where
  "alignedB objBR ar ac =
     (if r0 objBR = r1 objBR then c0 objBR \<le> ac \<and> ac \<le> c1 objBR
      else r0 objBR \<le> ar \<and> ar \<le> r1 objBR)"

definition labelB :: "Grid \<Rightarrow> RangeA1 \<Rightarrow> int \<Rightarrow> int \<Rightarrow> jstring" where
  "labelB grid objBR ar ac =
     (if r0 objBR = r1 objBR then trim (cell grid (r0 objBR) ac)
      else trim (cell grid ar (c0 objBR)))"

definition cellOutcome :: "host \<Rightarrow> jstring list \<Rightarrow> Grid \<Rightarrow> RangeA1 \<Rightarrow> RangeA1 \<Rightarrow> int \<Rightarrow> int
    \<Rightarrow> markOutcome" where
  "cellOutcome h markSet grid objAR objBR ar ac =
     (if trim (cell grid ar ac) = [] then NotMarked
      else if toLowerCase h (trim (cell grid ar ac)) \<notin> set markSet then NotMarked
      else if alignedA objAR ar ac \<and> alignedB objBR ar ac then
        (if labelA grid objAR ar ac = [] then MissingA
         else if labelB grid objBR ar ac = [] then MissingB
         else Pair (labelA grid objAR ar ac) (labelB grid objBR ar ac) ar ac)
      else OutOfBounds)"

definition cellPos :: "RangeA1 \<Rightarrow> int \<Rightarrow> int \<Rightarrow> nat" where
  "cellPos matR ar ac = nat (ar - r0 matR) * nat (c1 matR - c0 matR + 1) + nat (ac - c0 matR)"

text \<open>
  The records without the trailing ones whose values under the headers are all blank.
\<close>

definition withoutTrailingBlank :: "jstring list \<Rightarrow> jsrecord list \<Rightarrow> jsrecord list" where
  "withoutTrailingBlank hs rs =
     rev (dropWhile (\<lambda>r. list_all (\<lambda>h. trim (fieldString r h) = []) hs) (rev rs))"

section \<open>Properties\<close>

subsection \<open>Strings and numbers\<close>

lemma uint_digitChar:
  assumes "d < 10"
  shows "uint (digitChar d) = 48 + int d"
proof -
  from assms have "(48 + d) mod 2 ^ LENGTH(16) = 48 + d" by simp
  then have "unat (of_nat (48 + d) :: 16 word) = 48 + d" by (simp only: unat_of_nat)
  then have "int (unat (digitChar d)) = 48 + int d" by (simp only: digitChar_def)
  then show ?thesis by (simp only: uint_nat)
qed

lemma parseDigits_snoc: "parseDigits (xs @ [c]) = 10 * parseDigits xs + (uint c - 48)"
  by (simp add: parseDigits_def)

lemma parseDigits_decimal: "parseDigits (decimal n) = int n"
proof (induction n rule: decimal.induct)
  case (1 n)
  show ?case
  proof (cases "n < 10")
    case True
    then show ?thesis
      by (subst decimal.simps) (simp add: parseDigits_def uint_digitChar)
  next
    case False
    then have "parseDigits (decimal (n div 10)) = int (n div 10)" using 1 by simp
    with False show ?thesis
      by (subst decimal.simps) (simp add: parseDigits_snoc uint_digitChar, presburger)
  qed
qed

lemma decimal_inj: "decimal a = decimal b \<Longrightarrow> a = b"
  by (metis parseDigits_decimal of_nat_eq_iff)

lemma numToString_inj: "0 \<le> a \<Longrightarrow> 0 \<le> b \<Longrightarrow> numToString a = numToString b \<Longrightarrow> a = b"
  by (auto simp: numToString_def dest!: decimal_inj)

lemma rowKey_inj: "0 \<le> a \<Longrightarrow> 0 \<le> b \<Longrightarrow> rowKey a = rowKey b \<Longrightarrow> a = b"
  by (simp add: rowKey_def numToString_inj)

lemma colKey_inj: "0 \<le> a \<Longrightarrow> 0 \<le> b \<Longrightarrow> colKey a = colKey b \<Longrightarrow> a = b"
  by (simp add: colKey_def numToString_inj)

lemma trim_Nil: "trim [] = []"
  by (simp add: trim_def)

lemma trim_self:
  assumes "s \<noteq> []" "\<not> isWhiteSpace (hd s)" "\<not> isWhiteSpace (last s)"
  shows "trim s = s"
proof -
  from assms obtain x xs where s: "s = x # xs" by (cases s) auto
  with assms have d1: "dropWhile isWhiteSpace s = s" by simp
  from assms have "rev s \<noteq> []" "\<not> isWhiteSpace (hd (rev s))" by (simp_all add: hd_rev)
  then have "dropWhile isWhiteSpace (rev s) = rev s" by (cases "rev s") auto
  with d1 show ?thesis by (simp add: trim_def)
qed

lemma last_dropWhile: "dropWhile P xs \<noteq> [] \<Longrightarrow> last (dropWhile P xs) = last xs"
  by (induction xs) (auto split: if_splits)

lemma trim_ends:
  assumes "trim s \<noteq> []"
  shows "\<not> isWhiteSpace (hd (trim s))" "\<not> isWhiteSpace (last (trim s))"
proof -
  define t where "t = dropWhile isWhiteSpace s"
  define u where "u = dropWhile isWhiteSpace (rev t)"
  have tr: "trim s = rev u" by (simp add: trim_def t_def u_def)
  with assms have u: "u \<noteq> []" by simp
  then have t: "t \<noteq> []" by (auto simp: u_def)
  have "\<not> isWhiteSpace (hd u)" using u unfolding u_def by (rule hd_dropWhile)
  then show "\<not> isWhiteSpace (last (trim s))" using u by (simp add: tr last_rev)
  have "last u = last (rev t)" using u unfolding u_def by (rule last_dropWhile)
  also have "\<dots> = hd t" using t by (simp add: last_rev)
  finally have "hd (trim s) = hd t" using u by (simp add: tr hd_rev)
  moreover have "\<not> isWhiteSpace (hd t)" using t unfolding t_def by (rule hd_dropWhile)
  ultimately show "\<not> isWhiteSpace (hd (trim s))" by simp
qed

lemma trim_idem: "trim (trim s) = trim s"
proof (cases "trim s = []")
  case True
  with trim_Nil show ?thesis by simp
next
  case False
  then show ?thesis by (intro trim_self trim_ends)
qed

lemma join_ends:
  "ps \<noteq> [] \<Longrightarrow> \<forall>p\<in>set ps. p \<noteq> [] \<Longrightarrow>
   join sep ps \<noteq> [] \<and> hd (join sep ps) = hd (hd ps) \<and> last (join sep ps) = last (last ps)"
  by (induction sep ps rule: join.induct) auto

lemma trim_join:
  assumes "\<forall>p\<in>set ps. p \<noteq> [] \<and> trim p = p"
  shows "trim (join sep ps) = join sep ps"
proof (cases ps)
  case Nil
  then show ?thesis by (simp add: trim_def)
next
  case (Cons a as)
  then have ne: "ps \<noteq> []" by simp
  have all: "\<forall>p\<in>set ps. p \<noteq> []" using assms by simp
  note je = join_ends [OF ne all, of sep]
  have "hd ps \<in> set ps" "last ps \<in> set ps" using ne by simp_all
  then have h: "hd ps \<noteq> [] \<and> trim (hd ps) = hd ps"
    and l: "last ps \<noteq> [] \<and> trim (last ps) = last ps"
    using assms by blast+
  have "\<not> isWhiteSpace (hd (hd ps))" using trim_ends(1) [of "hd ps"] h by simp
  moreover have "\<not> isWhiteSpace (last (last ps))" using trim_ends(2) [of "last ps"] l by simp
  ultimately show ?thesis using je by (intro trim_self) simp_all
qed

subsection \<open>Maps built by repeated \<open>set\<close>\<close>

lemma fold_update_fresh:
  "distinct (map k xs) \<Longrightarrow> k ` set xs \<inter> fst ` set m = {} \<Longrightarrow>
   fold (\<lambda>x m. AList.update (k x) (v x) m) xs m = m @ map (\<lambda>x. (k x, v x)) xs"
proof (induction xs arbitrary: m)
  case Nil
  then show ?case by simp
next
  case (Cons x xs)
  have fresh: "k x \<notin> fst ` set m" using Cons.prems(2) by auto
  have upd: "AList.update (k x) (v x) m = m @ [(k x, v x)]"
    using fresh by (induction m) auto
  have "k ` set xs \<inter> fst ` set (m @ [(k x, v x)]) = {}"
    using Cons.prems by auto
  with Cons.IH [of "m @ [(k x, v x)]"] Cons.prems(1) upd show ?case by simp
qed

subsection \<open>Ranges\<close>

lemma normalizeRange_ordered:
  "r0 (normalizeRange rng grid) \<le> r1 (normalizeRange rng grid)"
  "c0 (normalizeRange rng grid) \<le> c1 (normalizeRange rng grid)"
  "0 \<le> r0 (normalizeRange rng grid)"
  "0 \<le> c0 (normalizeRange rng grid)"
  by (simp_all add: normalizeRange_def Let_def clamp_def)

lemma getRange2D_rows:
  "getRange2D grid rng \<noteq> [] \<and> (\<forall>row\<in>set (getRange2D grid rng). row \<noteq> [])"
  using normalizeRange_ordered(1,2) [of rng grid]
  by (simp add: getRange2D_def Let_def upto_Nil)

lemma rowKeys_distinct: "0 \<le> a \<Longrightarrow> distinct (map rowKey [a..b])"
  by (auto simp: distinct_map inj_on_def intro: rowKey_inj)

lemma colKeys_distinct: "0 \<le> a \<Longrightarrow> distinct (map colKey [a..b])"
  by (auto simp: distinct_map inj_on_def intro: colKey_inj)

lemma fold_rowKey:
  "0 \<le> a \<Longrightarrow> fold (\<lambda>r m. AList.update (rowKey r) (v r) m) [a..b] []
     = map (\<lambda>r. (rowKey r, v r)) [a..b]"
  using fold_update_fresh [of rowKey "[a..b]" "[]" v] by (simp add: rowKeys_distinct)

lemma fold_colKey:
  "0 \<le> a \<Longrightarrow> fold (\<lambda>c m. AList.update (colKey c) (v c) m) [a..b] []
     = map (\<lambda>c. (colKey c, v c)) [a..b]"
  using fold_update_fresh [of colKey "[a..b]" "[]" v] by (simp add: colKeys_distinct)

lemma set_update_subset: "set (AList.update k v m) \<subseteq> insert (k, v) (set m)"
  by (induction m) auto

lemma getRolesMap_cases:
  fixes grid rng
  defines "n \<equiv> normalizeRange rng grid"
  shows "(c0 n = c1 n \<longrightarrow>
           getRolesMap grid rng =
             \<lparr> rmap = map (\<lambda>r. (rowKey r, trim (cell grid r (c0 n)))) [r0 n..r1 n],
               warning = None, keyKind = RowKind \<rparr>)
       \<and> (c0 n \<noteq> c1 n \<and> r0 n = r1 n \<longrightarrow>
           getRolesMap grid rng =
             \<lparr> rmap = map (\<lambda>c. (colKey c, trim (cell grid (r0 n) c))) [c0 n..c1 n],
               warning = None, keyKind = ColKind \<rparr>)
       \<and> (c0 n \<noteq> c1 n \<and> r0 n \<noteq> r1 n \<longrightarrow>
           getRolesMap grid rng =
             \<lparr> rmap = map (\<lambda>r. (rowKey r,
                          join (js '' '')
                            (filter (\<lambda>v. v \<noteq> []) (map (\<lambda>c. trim (cell grid r c)) [c0 n..c1 n]))))
                        [r0 n..r1 n],
               warning = Some (js ''Range is a block; values are joined per row.''),
               keyKind = RowKind \<rparr>)"
proof -
  have r: "0 \<le> r0 n" and c: "0 \<le> c0 n"
    unfolding n_def by (rule normalizeRange_ordered)+
  show ?thesis
    unfolding getRolesMap_def Let_def n_def [symmetric]
    by (simp add: fold_rowKey [OF r] fold_colKey [OF c])
qed

lemma getRolesMap_trimmed:
  "(k, v) \<in> set (rmap (getRolesMap grid rng)) \<Longrightarrow> trim v = v"
proof -
  define n where "n = normalizeRange rng grid"
  assume kv: "(k, v) \<in> set (rmap (getRolesMap grid rng))"
  note cs = getRolesMap_cases [of rng grid, folded n_def]
  consider "c0 n = c1 n" | "c0 n \<noteq> c1 n" "r0 n = r1 n" | "c0 n \<noteq> c1 n" "r0 n \<noteq> r1 n" by blast
  then show ?thesis
  proof cases
    case 1
    with cs kv show ?thesis by (auto simp: trim_idem)
  next
    case 2
    with cs kv show ?thesis by (auto simp: trim_idem)
  next
    case 3
    with cs kv obtain r where
      v: "v = join (js '' '') (filter (\<lambda>v. v \<noteq> []) (map (\<lambda>c. trim (cell grid r c)) [c0 n..c1 n]))"
      by auto
    show ?thesis unfolding v by (rule trim_join) (auto simp: trim_idem)
  qed
qed

subsection \<open>Record mapper: stored values are trimmed\<close>

lemma trimmedMap_update: "trimmedMap m \<Longrightarrow> trim v = v \<Longrightarrow> trimmedMap (AList.update k v m)"
  using set_update_subset [of k v m] by (auto simp: trimmedMap_def)

lemma trimmedMap_fold_update:
  "trimmedMap m \<Longrightarrow> trimmedMap kvs \<Longrightarrow> trimmedMap (fold (\<lambda>(k, v) m. AList.update k v m) kvs m)"
proof (induction kvs arbitrary: m)
  case Nil
  then show ?case by simp
next
  case (Cons a kvs)
  obtain k v where a: "a = (k, v)" by (cases a)
  from Cons.prems(2) have "trim v = v" "trimmedMap kvs" by (auto simp: a trimmedMap_def)
  with Cons.prems(1) Cons.IH [of "AList.update k v m"] show ?case
    by (simp add: a trimmedMap_update)
qed

lemma trimmedMap_getRolesMap: "trimmedMap (rmap (getRolesMap grid rng))"
  using getRolesMap_trimmed by (auto simp: trimmedMap_def)

lemma rangeStep_trimmed:
  assumes "trimmedMap (fst (snd st))"
  shows "trimmedMap (fst (snd (rangeStep h grid outHeader a1 st)))"
proof -
  obtain w m hk where st: "st = (w, m, hk)" by (cases st)
  with assms have m: "trimmedMap m" by simp
  show ?thesis
    unfolding rangeStep_def st
    by (auto simp: Let_def m trimmedMap_fold_update trimmedMap_getRolesMap split: option.splits)
qed

lemma fold_rangeStep_trimmed:
  "trimmedMap (fst (snd st)) \<Longrightarrow> trimmedMap (fst (snd (fold (rangeStep h grid outHeader) rs st)))"
  by (induction rs arbitrary: st) (simp_all add: rangeStep_trimmed)

lemma setColMap_trimmed: "trimmedCols cm \<Longrightarrow> trimmedMap m \<Longrightarrow> trimmedCols (setColMap k m cm)"
proof -
  assume cm: "trimmedCols cm" and m: "trimmedMap m"
  obtain own proto where c: "cm = (own, proto)" by (cases cm)
  have "\<forall>(hdr, m') \<in> set (AList.update k m own). trimmedMap m'"
    using cm m set_update_subset [of k m own] by (fastforce simp: trimmedCols_def c)
  with cm m show ?thesis
    by (simp add: setColMap_def c trimmedCols_def)
qed

lemma columnStep_trimmed:
  assumes "trimmedCols (fst (snd st))"
  shows "trimmedCols (fst (snd (columnStep h grid headerMap col st)))"
proof -
  obtain w cm ks where st: "st = (w, cm, ks)" by (cases st)
  with assms have cm: "trimmedCols cm" by simp
  have e: "trimmedMap (fst (snd ((w, [], None) :: jstring list \<times> (RoleKey \<times> jstring) list \<times> keyKind option)))"
    by (simp add: trimmedMap_def)
  have res: "\<And>oh w' m' hk'. fold (rangeStep h grid oh) (rangesA1 col) (w, [], None) = (w', m', hk')
      \<Longrightarrow> trimmedMap m'"
    using fold_rangeStep_trimmed [OF e] by (metis fst_conv snd_conv)
  show ?thesis
    unfolding columnStep_def st
    using cm by (auto simp: Let_def split: prod.splits option.splits intro!: setColMap_trimmed res)
qed

lemma fold_columnStep_trimmed:
  "trimmedCols (fst (snd st)) \<Longrightarrow> trimmedCols (fst (snd (fold (columnStep h grid headerMap) cols st)))"
  by (induction cols arbitrary: st) (simp_all add: columnStep_trimmed)

lemma trimmedRecord_setProperty:
  "trimmedRecord r \<Longrightarrow> trim v = v \<Longrightarrow> trimmedRecord (setProperty k (Str v) r)"
  using set_update_subset [of k "Str v" r] by (auto simp: trimmedRecord_def setProperty_def)

lemma colMapGet_trimmed:
  assumes "trimmedCols cm" and "colMapGet cm hdr k = Inr v"
  shows "trim v = v"
proof -
  obtain own proto where c: "cm = (own, proto)" by (cases cm)
  have l: "trim (case map_of m k of None \<Rightarrow> [] | Some x \<Rightarrow> x)
         = (case map_of m k of None \<Rightarrow> [] | Some x \<Rightarrow> x)" if "trimmedMap m" for m
    using that by (auto simp: trimmedMap_def trim_Nil split: option.splits dest!: map_of_SomeD)
  show ?thesis
  proof (cases "map_of own hdr")
    case (Some m)
    then have "(hdr, m) \<in> set own" by (rule map_of_SomeD)
    with assms(1) have "trimmedMap m" by (auto simp: trimmedCols_def c)
    from l [OF this] assms(2) Some show ?thesis by (auto simp: colMapGet_def c)
  next
    case None
    show ?thesis
    proof (cases proto)
      case N: None
      with assms(2) None show ?thesis
        by (auto simp: colMapGet_def c trim_Nil split: if_splits)
    next
      case (Some m)
      with assms(1) have "trimmedMap m" by (simp add: trimmedCols_def c)
      from l [OF this] assms(2) None Some show ?thesis
        by (auto simp: colMapGet_def c trim_Nil split: if_splits)
    qed
  qed
qed

lemma fillRecord_trimmed:
  "trimmedCols cm \<Longrightarrow> trimmedRecord r \<Longrightarrow> fillRecord cm k hs r = Inr r' \<Longrightarrow> trimmedRecord r'"
proof (induction hs arbitrary: r)
  case Nil
  then show ?case by simp
next
  case (Cons a hs)
  from Cons.prems(3) obtain v where v: "colMapGet cm a k = Inr v"
    and f: "fillRecord cm k hs (setProperty a (Str v) r) = Inr r'"
    by (cases "colMapGet cm a k") simp_all
  from Cons.prems(1) v have "trim v = v" by (rule colMapGet_trimmed)
  with Cons.prems(2) have "trimmedRecord (setProperty a (Str v) r)" by (rule trimmedRecord_setProperty)
  with Cons.prems(1) show ?case using f by (rule Cons.IH)
qed

lemma buildRecord_trimmed:
  assumes "trimmedCols cm" and "buildRecord hs cm k = Inr r"
  shows "trimmedRecord r"
proof -
  have "trimmedRecord (case parseRoleKey k of
                     Some (RowKind, idx) \<Rightarrow> [(js ''__sheetRow'', Num idx)]
                   | Some (ColKind, idx) \<Rightarrow> [(js ''__sheetCol'', Num idx)]
                   | None \<Rightarrow> [])"
  proof (cases "parseRoleKey k")
    case None
    then show ?thesis by (simp add: trimmedRecord_def)
  next
    case (Some a)
    then show ?thesis by (cases a; cases "fst a") (simp_all add: trimmedRecord_def)
  qed
  with assms(1) show ?thesis
    using assms(2) unfolding buildRecord_def Let_def by (rule fillRecord_trimmed)
qed

lemma rowsLoop_trimmed:
  "(\<And>k r. build k = Inr r \<Longrightarrow> trimmedRecord r) \<Longrightarrow> rowsLoop build keep ks = Inr rs
   \<Longrightarrow> record \<in> set rs \<Longrightarrow> trimmedRecord record"
proof (induction ks arbitrary: rs)
  case Nil
  then show ?case by simp
next
  case (Cons k ks)
  from Cons.prems(2) obtain r rs' where b: "build k = Inr r" and l: "rowsLoop build keep ks = Inr rs'"
    and rs: "rs = (if keep r then r # rs' else rs')"
    by (cases "build k"; cases "rowsLoop build keep ks") simp_all
  from Cons.prems(3) rs have "record = r \<or> record \<in> set rs'" by (auto split: if_splits)
  then show ?case
  proof
    assume "record = r"
    with Cons.prems(1) [OF b] show ?thesis by simp
  next
    assume "record \<in> set rs'"
    with Cons.IH [OF Cons.prems(1) l] show ?thesis by simp
  qed
qed

lemma rowsLoop_rows_trimmed:
  assumes "\<And>k r. build k = Inr r \<Longrightarrow> trimmedRecord r"
    and "record \<in> set (case rowsLoop build keep ks of Inl e \<Rightarrow> [] | Inr rs \<Rightarrow> rs)"
  shows "trimmedRecord record"
proof (cases "rowsLoop build keep ks")
  case (Inl e)
  with assms(2) show ?thesis by simp
next
  case (Inr rs)
  with assms(2) have "record \<in> set rs" by simp
  with assms(1) Inr show ?thesis by (rule rowsLoop_trimmed)
qed

lemma recordsTable_trimmed:
  "record \<in> set (tableRows (recordsTable h cols req grid)) \<Longrightarrow> trimmedRecord record"
proof -
  assume a: "record \<in> set (tableRows (recordsTable h cols req grid))"
  define hs0 where "hs0 = makeUniqueHeaders (filter (\<lambda>x. x \<noteq> []) (map (\<lambda>c. trim (header c)) cols))"
  define hm where "hm = fold (\<lambda>(raw, u) m. AList.update raw u m)
     (zip (filter (\<lambda>x. x \<noteq> []) (map (\<lambda>c. trim (header c)) cols)) hs0) []"
  define st where "st = fold (columnStep h grid hm) cols ([], ([], None), [])"
  obtain w cm ks where st: "st = (w, cm, ks)" by (cases st)
  have "trimmedCols (fst (snd st))"
    unfolding st_def by (rule fold_columnStep_trimmed) (simp add: trimmedCols_def)
  then have "trimmedCols cm" by (simp add: st)
  then have b: "\<And>k r. buildRecord hs0 cm k = Inr r \<Longrightarrow> trimmedRecord r"
    by (rule buildRecord_trimmed)
  from a show ?thesis
    unfolding recordsTable_def Let_def hs0_def [symmetric] hm_def [symmetric] st_def [symmetric] st
    by (simp only: prod.case recordsTable.select_convs)
       (erule rowsLoop_rows_trimmed [where build = "buildRecord hs0 cm", OF b, rotated -1])
qed

subsection \<open>C3: orientation of a range in Records mode\<close>

text \<open>
  Claim C3, amended. For the normalized range \<open>n\<close> of a range: when \<open>n\<close> is a single
  column, \<open>getRolesMap\<close> returns the map with one entry per row of \<open>n\<close>, keyed by the
  row key of the row index and holding the whitespace-trimmed value of that row's cell,
  with key kind row and no warning; when \<open>n\<close> is a single row (and not a single column),
  one entry per column, keyed by the column key; otherwise one entry per row, holding the
  row's trimmed cell values that are not empty, joined with one space, with key kind row
  and a warning. The keys of the map are pairwise different. In particular the column
  B2:B4 holding x, y, z under the header Name gives exactly three records, of the rows
  1, 2, 3, each with its value.
\<close>

theorem records_range_orientation:
  fixes grid rng
  defines "n \<equiv> normalizeRange rng grid"
  shows "(c0 n = c1 n \<longrightarrow>
           getRolesMap grid rng =
             \<lparr> rmap = map (\<lambda>r. (rowKey r, trim (cell grid r (c0 n)))) [r0 n..r1 n],
               warning = None, keyKind = RowKind \<rparr>)
       \<and> (c0 n \<noteq> c1 n \<and> r0 n = r1 n \<longrightarrow>
           getRolesMap grid rng =
             \<lparr> rmap = map (\<lambda>c. (colKey c, trim (cell grid (r0 n) c))) [c0 n..c1 n],
               warning = None, keyKind = ColKind \<rparr>)
       \<and> (c0 n \<noteq> c1 n \<and> r0 n \<noteq> r1 n \<longrightarrow>
           getRolesMap grid rng =
             \<lparr> rmap = map (\<lambda>r. (rowKey r,
                          join (js '' '')
                            (filter (\<lambda>v. v \<noteq> []) (map (\<lambda>c. trim (cell grid r c)) [c0 n..c1 n]))))
                        [r0 n..r1 n],
               warning = Some (js ''Range is a block; values are joined per row.''),
               keyKind = RowKind \<rparr>)
       \<and> distinct (map fst (rmap (getRolesMap grid rng)))
       \<and> tableRows (recordsTable (asciiHost nf dp lcmp)
                      [\<lparr> header = js ''Name'', rangesA1 = [js ''B2:B4''] \<rparr>] [] recordsGrid)
           = [[(js ''__sheetRow'', Num 1), (js ''Name'', Str (js ''x''))],
              [(js ''__sheetRow'', Num 2), (js ''Name'', Str (js ''y''))],
              [(js ''__sheetRow'', Num 3), (js ''Name'', Str (js ''z''))]]"
proof -
  note cs = getRolesMap_cases [of rng grid, folded n_def]
  have r: "0 \<le> r0 n" and c: "0 \<le> c0 n"
    unfolding n_def by (rule normalizeRange_ordered)+
  have d: "distinct (map fst (rmap (getRolesMap grid rng)))"
  proof -
    consider "c0 n = c1 n" | "c0 n \<noteq> c1 n" "r0 n = r1 n" | "c0 n \<noteq> c1 n" "r0 n \<noteq> r1 n" by blast
    then show ?thesis
    proof cases
      case 1
      with cs rowKeys_distinct [OF r, of "r1 n"] show ?thesis by (simp add: comp_def)
    next
      case 2
      with cs colKeys_distinct [OF c, of "c1 n"] show ?thesis by (simp add: comp_def)
    next
      case 3
      with cs rowKeys_distinct [OF r, of "r1 n"] show ?thesis by (simp add: comp_def)
    qed
  qed
  have ex: "tableRows (recordsTable (asciiHost nf dp lcmp)
                      [\<lparr> header = js ''Name'', rangesA1 = [js ''B2:B4''] \<rparr>] [] recordsGrid)
           = [[(js ''__sheetRow'', Num 1), (js ''Name'', Str (js ''x''))],
              [(js ''__sheetRow'', Num 2), (js ''Name'', Str (js ''y''))],
              [(js ''__sheetRow'', Num 3), (js ''Name'', Str (js ''z''))]]"
    by code_simp
  from cs d ex show ?thesis by blast
qed

text \<open>The three cases on the sheet of the example: B2:B4, A2:B2 and A2:B3.\<close>

theorem records_range_orientation_witness:
  "getRolesMap recordsGrid \<lparr> r0 = 1, c0 = 1, r1 = 3, c1 = 1 \<rparr>
     = \<lparr> rmap = [(js ''r:1'', js ''x''), (js ''r:2'', js ''y''), (js ''r:3'', js ''z'')],
         warning = None, keyKind = RowKind \<rparr>
   \<and> getRolesMap recordsGrid \<lparr> r0 = 1, c0 = 0, r1 = 1, c1 = 1 \<rparr>
     = \<lparr> rmap = [(js ''c:0'', js ''a''), (js ''c:1'', js ''x'')],
         warning = None, keyKind = ColKind \<rparr>
   \<and> getRolesMap recordsGrid \<lparr> r0 = 1, c0 = 0, r1 = 2, c1 = 1 \<rparr>
     = \<lparr> rmap = [(js ''r:1'', js ''a x''), (js ''r:2'', js ''b y'')],
         warning = Some (js ''Range is a block; values are joined per row.''),
         keyKind = RowKind \<rparr>"
proof -
  have n1: "normalizeRange \<lparr> r0 = 1, c0 = 1, r1 = 3, c1 = 1 \<rparr> recordsGrid = \<lparr> r0 = 1, c0 = 1, r1 = 3, c1 = 1 \<rparr>"
    and n2: "normalizeRange \<lparr> r0 = 1, c0 = 0, r1 = 1, c1 = 1 \<rparr> recordsGrid = \<lparr> r0 = 1, c0 = 0, r1 = 1, c1 = 1 \<rparr>"
    and n3: "normalizeRange \<lparr> r0 = 1, c0 = 0, r1 = 2, c1 = 1 \<rparr> recordsGrid = \<lparr> r0 = 1, c0 = 0, r1 = 2, c1 = 1 \<rparr>"
    by (simp_all add: normalizeRange_def recordsGrid_def clamp_def)
  have m1: "map (\<lambda>r. (rowKey r, trim (cell recordsGrid r 1))) [1..3]
      = [(js ''r:1'', js ''x''), (js ''r:2'', js ''y''), (js ''r:3'', js ''z'')]"
    by code_simp
  have m2: "map (\<lambda>c. (colKey c, trim (cell recordsGrid 1 c))) [0..1]
      = [(js ''c:0'', js ''a''), (js ''c:1'', js ''x'')]"
    by code_simp
  have m3: "map (\<lambda>r. (rowKey r, join (js '' '')
                 (filter (\<lambda>v. v \<noteq> []) (map (\<lambda>c. trim (cell recordsGrid r c)) [0..1])))) [1..2]
      = [(js ''r:1'', js ''a x''), (js ''r:2'', js ''b y'')]"
    by code_simp
  show ?thesis
    using records_range_orientation [of "\<lparr> r0 = 1, c0 = 1, r1 = 3, c1 = 1 \<rparr>" recordsGrid]
          records_range_orientation [of "\<lparr> r0 = 1, c0 = 0, r1 = 1, c1 = 1 \<rparr>" recordsGrid]
          records_range_orientation [of "\<lparr> r0 = 1, c0 = 0, r1 = 2, c1 = 1 \<rparr>" recordsGrid]
    by (simp add: n1 n2 n3 m1 m2 m3)
qed

text \<open>
  The claim as stated has the map hold the cell's value and join the non-empty cell
  values of a block's row. On the padded sheet the cell A1 holds x between two spaces
  and B1 holds two spaces: the map of the column A1:A2 holds x for row 0, not the cell's
  value, and the map of the block A1:B2 holds x for row 0, not the two non-empty cell
  values joined with a space.
\<close>

theorem records_range_orientation_counterexample:
  "cell paddedGrid 0 0 = js '' x '' \<and> cell paddedGrid 0 1 = js ''  ''
   \<and> cell paddedGrid 0 1 \<noteq> []
   \<and> rmap (getRolesMap paddedGrid \<lparr> r0 = 0, c0 = 0, r1 = 1, c1 = 0 \<rparr>)
       = [(js ''r:0'', js ''x''), (js ''r:1'', js ''y'')]
   \<and> rmap (getRolesMap paddedGrid \<lparr> r0 = 0, c0 = 0, r1 = 1, c1 = 1 \<rparr>)
       = [(js ''r:0'', js ''x''), (js ''r:1'', js ''y z'')]
   \<and> join (js '' '') [cell paddedGrid 0 0, cell paddedGrid 0 1] = js '' x    ''"
  by code_simp

subsection \<open>C10: stored values are trimmed\<close>

text \<open>
  Claim C10. Every value stored in the map of a range is whitespace-trimmed, whatever the
  shape of the range, and so is every string field of every record that the record mapper
  produces.
\<close>

theorem records_values_trimmed:
  "(\<forall>(k, v) \<in> set (rmap (getRolesMap grid rng)). trim v = v)
   \<and> (\<forall>record \<in> set (tableRows (recordsTable h cols req grid)).
        \<forall>(k, x) \<in> set record. \<forall>v. x = Str v \<longrightarrow> trim v = v)"
proof
  show "\<forall>(k, v) \<in> set (rmap (getRolesMap grid rng)). trim v = v"
    using getRolesMap_trimmed by blast
  show "\<forall>record \<in> set (tableRows (recordsTable h cols req grid)).
        \<forall>(k, x) \<in> set record. \<forall>v. x = Str v \<longrightarrow> trim v = v"
    using recordsTable_trimmed [of _ h cols req grid] by (fastforce simp: trimmedRecord_def)
qed

text \<open>On the padded sheet: the block A1:B2 under one header, and the column A1:A2.\<close>

theorem records_values_trimmed_witness:
  "(\<forall>nf dp lcmp.
     tableRows (recordsTable (asciiHost nf dp lcmp)
                  [\<lparr> header = js ''Name'', rangesA1 = [js ''A1:B2''] \<rparr>] [] paddedGrid)
       = [[(js ''__sheetRow'', Num 0), (js ''Name'', Str (js ''x''))],
          [(js ''__sheetRow'', Num 1), (js ''Name'', Str (js ''y z''))]])
   \<and> rmap (getRolesMap paddedGrid \<lparr> r0 = 0, c0 = 0, r1 = 1, c1 = 0 \<rparr>)
       = [(js ''r:0'', js ''x''), (js ''r:1'', js ''y'')]
   \<and> trim (js ''x'') = js ''x'' \<and> trim (js ''y'') = js ''y'' \<and> trim (js ''y z'') = js ''y z''"
proof -
  have t: "\<And>nf dp lcmp. tableRows (recordsTable (asciiHost nf dp lcmp)
                  [\<lparr> header = js ''Name'', rangesA1 = [js ''A1:B2''] \<rparr>] [] paddedGrid)
       = [[(js ''__sheetRow'', Num 0), (js ''Name'', Str (js ''x''))],
          [(js ''__sheetRow'', Num 1), (js ''Name'', Str (js ''y z''))]]"
    by code_simp
  have m: "rmap (getRolesMap paddedGrid \<lparr> r0 = 0, c0 = 0, r1 = 1, c1 = 0 \<rparr>)
       = [(js ''r:0'', js ''x''), (js ''r:1'', js ''y'')]"
    by code_simp
  from records_values_trimmed [of paddedGrid "\<lparr> r0 = 0, c0 = 0, r1 = 1, c1 = 0 \<rparr>"
         "asciiHost (\<lambda>_. None) (\<lambda>_. None) (\<lambda>_ _. 0)"
         "[\<lparr> header = js ''Name'', rangesA1 = [js ''A1:B2''] \<rparr>]" "[]"]
  have "trim (js ''x'') = js ''x'' \<and> trim (js ''y'') = js ''y'' \<and> trim (js ''y z'') = js ''y z''"
    unfolding t m by simp
  with t m show ?thesis by simp
qed

subsection \<open>C6: a condition with no left-hand value\<close>

text \<open>
  Claim C6. When no left-hand value resolves for a condition, the condition passes exactly
  when its operator is negated (not-equals or not-contains): a list of conditions that
  starts with it passes exactly when the operator is negated and the rest passes, and with
  any of the six other operators it fails.
\<close>

theorem zero_left_values_rule:
  assumes "leftValues h record f grid = []"
  shows "(passesFilters h record [f] grid \<longleftrightarrow> isNegOp (op f))
       \<and> (passesFilters h record (f # fs) grid \<longleftrightarrow> isNegOp (op f) \<and> passesFilters h record fs grid)
       \<and> (isNegOp (op f) \<longleftrightarrow> op f = Neq \<or> op f = NotLike)
       \<and> (op f \<in> {Eq, Lt, Gt, Like, IsEmpty, IsNotEmpty} \<longrightarrow> \<not> passesFilters h record (f # fs) grid)"
  using assms by (auto simp: Let_def isNegOp_def)

text \<open>
  The single cell B2 does not align with a record that has a row and no column: no value
  resolves, not-contains passes and contains fails.
\<close>

theorem zero_left_values_rule_witness:
  "\<forall>nf dp lcmp.
     leftValues (asciiHost nf dp lcmp) rowRecord (sheetCond NotLike) recordsGrid = []
   \<and> leftValues (asciiHost nf dp lcmp) rowRecord (sheetCond Like) recordsGrid = []
   \<and> passesFilters (asciiHost nf dp lcmp) rowRecord [sheetCond NotLike] recordsGrid
   \<and> \<not> passesFilters (asciiHost nf dp lcmp) rowRecord [sheetCond Like] recordsGrid"
proof (intro allI)
  fix nf dp lcmp
  have a: "leftValues (asciiHost nf dp lcmp) rowRecord (sheetCond NotLike) recordsGrid = []"
    by code_simp
  have b: "leftValues (asciiHost nf dp lcmp) rowRecord (sheetCond Like) recordsGrid = []"
    by code_simp
  from zero_left_values_rule [OF a, of "[]"] zero_left_values_rule [OF b, of "[]"] a b
  show "leftValues (asciiHost nf dp lcmp) rowRecord (sheetCond NotLike) recordsGrid = []
   \<and> leftValues (asciiHost nf dp lcmp) rowRecord (sheetCond Like) recordsGrid = []
   \<and> passesFilters (asciiHost nf dp lcmp) rowRecord [sheetCond NotLike] recordsGrid
   \<and> \<not> passesFilters (asciiHost nf dp lcmp) rowRecord [sheetCond Like] recordsGrid"
    by (simp add: sheetCond_def isNegOp_def)
qed

subsection \<open>C9: a condition on an output field\<close>

text \<open>
  A condition whose source is the output resolves exactly one left-hand value, so a
  condition for which no value resolves is sheet-sourced. The value is the record's own
  value of the named field rendered as a string; without such a field it is the empty
  string when the name is not one of the members of \<open>Object.prototype\<close>, and the
  string of the inherited member when it is.
\<close>

lemma leftValues_output:
  "(source f = Output \<longrightarrow>
      length (leftValues h record f grid) = 1
      \<and> leftValues h record f grid
          = [case map_of record (field f) of
               Some v \<Rightarrow> valToString v
             | None \<Rightarrow> (case map_of objectPrototype (field f) of None \<Rightarrow> [] | Some s \<Rightarrow> s)])
   \<and> (leftValues h record f grid = [] \<longrightarrow> source f = Sheet)"
  by (cases "source f") (simp_all add: leftValues_def fieldString_def)

text \<open>
  Claim C9 has the left-hand value be the empty string when the record lacks the field,
  which is what \<open>record[field] ?? ""\<close> is written for; the default misses the names that
  every object inherits. The record of the example has no field \<open>constructor\<close> and none
  called \<open>Name\<close>: a condition on \<open>Name\<close> resolves the empty string and is-empty passes,
  a condition on \<open>constructor\<close> resolves the text of the inherited function and is-empty
  fails.
\<close>

theorem output_condition_inherited_name:
  "\<forall>h grid.
     map_of rowRecord (js ''Name'') = None
   \<and> leftValues h rowRecord (outputCond IsEmpty) grid = [[]]
   \<and> passesFilters h rowRecord [outputCond IsEmpty] grid
   \<and> map_of rowRecord (js ''constructor'') = None
   \<and> leftValues h rowRecord (outputCond IsEmpty \<lparr> field := js ''constructor'' \<rparr>) grid
       = [js ''function Object() { [native code] }'']
   \<and> \<not> passesFilters h rowRecord [outputCond IsEmpty \<lparr> field := js ''constructor'' \<rparr>] grid"
proof (intro allI)
  fix h :: host and grid :: Grid
  have a: "map_of rowRecord (js ''Name'') = None" by code_simp
  have b: "map_of rowRecord (js ''constructor'') = None" by code_simp
  have c: "fieldString rowRecord (js ''Name'') = []" by code_simp
  have d: "fieldString rowRecord (js ''constructor'') = js ''function Object() { [native code] }''"
    by code_simp
  have e: "trim (js ''function Object() { [native code] }'') \<noteq> []" by code_simp
  show "map_of rowRecord (js ''Name'') = None
   \<and> leftValues h rowRecord (outputCond IsEmpty) grid = [[]]
   \<and> passesFilters h rowRecord [outputCond IsEmpty] grid
   \<and> map_of rowRecord (js ''constructor'') = None
   \<and> leftValues h rowRecord (outputCond IsEmpty \<lparr> field := js ''constructor'' \<rparr>) grid
       = [js ''function Object() { [native code] }'']
   \<and> \<not> passesFilters h rowRecord [outputCond IsEmpty \<lparr> field := js ''constructor'' \<rparr>] grid"
    using a b e
    by (simp add: leftValues_def outputCond_def c d isEmptyValue_def trim_Nil isNegOp_def)
qed

subsection \<open>Count maps\<close>

lemma getCount_update: "getCount (AList.update k v m) k' = (if k' = k then v else getCount m k')"
  by (simp add: getCount_def update_conv')

lemma getCount_fold_bump:
  "getCount (fold (\<lambda>x m. AList.update (g x) (getCount m (g x) + 1) m) xs m) k
     = getCount m k + count_list (map g xs) k"
  by (induction xs arbitrary: m) (simp_all add: getCount_update)

lemma distinct_fold_bump:
  "distinct (map fst m) \<Longrightarrow>
   distinct (map fst (fold (\<lambda>x m. AList.update (g x) (getCount m (g x) + 1) m) xs m))"
  by (induction xs arbitrary: m) (simp_all add: distinct_update)

lemma getCount_countKeys: "getCount (countKeys hs rs) k = count_list (map (keyOf hs) rs) k"
  unfolding countKeys_def using getCount_fold_bump [of "keyOf hs" rs "[]" k]
  by (simp add: getCount_def)

lemma distinct_countKeys: "distinct (map fst (countKeys hs rs))"
  unfolding countKeys_def by (rule distinct_fold_bump) simp

lemma getCount_absent: "k \<notin> fst ` set m \<Longrightarrow> getCount m k = 0"
  by (simp add: getCount_def map_of_eq_None_iff [THEN iffD2])

lemma snd_getCount: "distinct (map fst m) \<Longrightarrow> p \<in> set m \<Longrightarrow> snd p = getCount m (fst p)"
  by (cases p) (simp add: getCount_def)

lemma groups_card:
  assumes "distinct (map fst m)"
  shows "length (filter (\<lambda>n. n > 1) (map snd m)) = card {k. 1 < getCount m k}"
proof -
  have "filter (\<lambda>n. n > 1) (map snd m) = map snd (filter (\<lambda>p. 1 < getCount m (fst p)) m)"
    unfolding filter_map comp_def
    by (rule arg_cong [where f = "map snd"], rule filter_cong) (auto simp: snd_getCount [OF assms])
  then have "length (filter (\<lambda>n. n > 1) (map snd m))
      = length (filter (\<lambda>k. 1 < getCount m k) (map fst m))"
    by (simp add: filter_map comp_def)
  also have "\<dots> = card ({k. 1 < getCount m k} \<inter> set (map fst m))"
    using assms by (simp only: distinct_length_filter)
  also have "{k. 1 < getCount m k} \<inter> set (map fst m) = {k. 1 < getCount m k}"
    using getCount_absent [of _ m] by fastforce
  finally show ?thesis .
qed

subsection \<open>C7: duplicates\<close>

text \<open>
  Claim C7. \<open>findDuplicates\<close> keys a row by the trimmed values of all headers, joined
  with the code unit U+241F; the rows it returns are all the rows, in order, whose key
  occurs more than once among the keys of the rows (every occurrence, not only the
  repetitions); the number of groups is the number of keys that occur more than once. On
  the three rows of the example with the headers a, b: one group and the two equal rows.
\<close>

theorem findDuplicates_all_occurrences:
  fixes rs hs
  defines "keys \<equiv> map (keyOf hs) rs"
  shows "keyOf hs r = join [0x241F] (map (\<lambda>h. trim (fieldString r h)) hs)
       \<and> duplicateRows (findDuplicates rs hs) = filter (\<lambda>r. 1 < count_list keys (keyOf hs r)) rs
       \<and> dupRowCount (findDuplicates rs hs) = length (duplicateRows (findDuplicates rs hs))
       \<and> groups (findDuplicates rs hs) = card {k. 1 < count_list keys k}
       \<and> findDuplicates dupRows [js ''a'', js ''b'']
           = \<lparr> groups = 1, dupRowCount = 2, duplicateRows = [dupRows ! 0, dupRows ! 1] \<rparr>"
proof -
  have g: "groups (findDuplicates rs hs) = card {k. 1 < count_list keys k}"
    using groups_card [OF distinct_countKeys, of hs rs]
    by (simp add: findDuplicates_def Let_def getCount_countKeys keys_def)
  have d: "duplicateRows (findDuplicates rs hs) = filter (\<lambda>r. 1 < count_list keys (keyOf hs r)) rs"
    by (simp add: findDuplicates_def Let_def getCount_countKeys keys_def)
  have e: "findDuplicates dupRows [js ''a'', js ''b'']
           = \<lparr> groups = 1, dupRowCount = 2, duplicateRows = [dupRows ! 0, dupRows ! 1] \<rparr>"
    by code_simp
  from g d e show ?thesis by (simp add: keyOf_def findDuplicates_def Let_def)
qed

subsection \<open>C4: auto alignment\<close>

lemma normalizeRange_idem: "normalizeRange (normalizeRange rng grid) grid = normalizeRange rng grid"
  by (simp add: normalizeRange_def Let_def clamp_def)

lemma getRange2D_normalized:
  "getRange2D grid (normalizeRange rng grid)
     = map (\<lambda>r. map (\<lambda>c. cell grid r c)
                 [c0 (normalizeRange rng grid)..c1 (normalizeRange rng grid)])
           [r0 (normalizeRange rng grid)..r1 (normalizeRange rng grid)]"
  by (simp add: getRange2D_def Let_def normalizeRange_idem)

text \<open>
  Claim C4. For a condition whose range reference parses, with \<open>rng\<close> the normalized
  range and \<open>row\<close>, \<open>col\<close> the provenance of the record (each present or absent),
  \<open>sheetValuesAuto\<close> follows the cascade: a single-cell range gives its cell when the
  provenance is exactly that cell and nothing otherwise; else, with both coordinates inside
  the range, the one cell at the provenance; else, for a single column with the row inside,
  the cell of that row in the column, and for a single row with the column inside, the cell
  of that column in the row; else, with the row inside, the slice of that row over the
  columns of the range, and with the column inside, the slice of that column over the rows
  of the range; else every cell of the range, row by row.
\<close>

theorem auto_alignment_cascade:
  fixes h :: host and rcd :: jsrecord and f :: FilterCondition and grid :: Grid
    and parsed :: RangeA1
  assumes parsed: "parseA1Range h (trim (sheetRangeA1 f)) = Some parsed"
  defines "rng \<equiv> normalizeRange parsed grid"
    and "row \<equiv> numField rcd (js ''__sheetRow'')"
    and "col \<equiv> numField rcd (js ''__sheetCol'')"
    and "vals \<equiv> sheetValuesAuto h rcd f grid"
  defines "singleRow \<equiv> r0 rng = r1 rng"
    and "singleCol \<equiv> c0 rng = c1 rng"
    and "rowIn \<equiv> (\<exists>r. row = Some r \<and> r0 rng \<le> r \<and> r \<le> r1 rng)"
    and "colIn \<equiv> (\<exists>c. col = Some c \<and> c0 rng \<le> c \<and> c \<le> c1 rng)"
  shows "(singleRow \<and> singleCol \<and> rowIn \<and> colIn \<longrightarrow>
            vals = [cell grid (r0 rng) (c0 rng)] \<and> row = Some (r0 rng) \<and> col = Some (c0 rng))
       \<and> (singleRow \<and> singleCol \<and> \<not> (rowIn \<and> colIn) \<longrightarrow> vals = [])
       \<and> (\<not> (singleRow \<and> singleCol) \<and> rowIn \<and> colIn \<longrightarrow> vals = [cell grid (the row) (the col)])
       \<and> (\<not> singleRow \<and> singleCol \<and> rowIn \<and> \<not> colIn \<longrightarrow> vals = [cell grid (the row) (c0 rng)])
       \<and> (singleRow \<and> \<not> singleCol \<and> colIn \<and> \<not> rowIn \<longrightarrow> vals = [cell grid (r0 rng) (the col)])
       \<and> (\<not> singleCol \<and> rowIn \<and> \<not> colIn \<longrightarrow>
            vals = map (\<lambda>c. cell grid (the row) c) [c0 rng..c1 rng])
       \<and> (\<not> singleRow \<and> colIn \<and> \<not> rowIn \<longrightarrow>
            vals = map (\<lambda>r. cell grid r (the col)) [r0 rng..r1 rng])
       \<and> (\<not> (singleRow \<and> singleCol) \<and> \<not> rowIn \<and> \<not> colIn \<longrightarrow>
            vals = concat (map (\<lambda>r. map (\<lambda>c. cell grid r c) [c0 rng..c1 rng]) [r0 rng..r1 rng]))"
proof -
  have g: "getRange2D grid rng
     = map (\<lambda>r. map (\<lambda>c. cell grid r c) [c0 rng..c1 rng]) [r0 rng..r1 rng]"
    unfolding rng_def by (rule getRange2D_normalized)
  have v: "vals =
     (if singleRow \<and> singleCol then
        (if row \<noteq> None \<and> col \<noteq> None \<and> inRange rng (the row) (the col)
         then [cell grid (the row) (the col)] else [])
      else if row \<noteq> None \<and> col \<noteq> None \<and> inRange rng (the row) (the col)
        then [cell grid (the row) (the col)]
      else if singleCol \<and> row \<noteq> None \<and> the row \<ge> r0 rng \<and> the row \<le> r1 rng
        then [cell grid (the row) (c0 rng)]
      else if singleRow \<and> col \<noteq> None \<and> the col \<ge> c0 rng \<and> the col \<le> c1 rng
        then [cell grid (r0 rng) (the col)]
      else if row \<noteq> None \<and> the row \<ge> r0 rng \<and> the row \<le> r1 rng
        then map (\<lambda>c. cell grid (the row) c) [c0 rng..c1 rng]
      else if col \<noteq> None \<and> the col \<ge> c0 rng \<and> the col \<le> c1 rng
        then map (\<lambda>r. cell grid r (the col)) [r0 rng..r1 rng]
      else concat (map (\<lambda>r. map (\<lambda>c. cell grid r c) [c0 rng..c1 rng]) [r0 rng..r1 rng]))"
    unfolding vals_def sheetValuesAuto_def parsed Let_def option.case
      rng_def [symmetric] row_def [symmetric] col_def [symmetric]
      singleRow_def [symmetric] singleCol_def [symmetric] g
    by (rule refl)
  have ri: "rowIn \<longleftrightarrow> row \<noteq> None \<and> the row \<ge> r0 rng \<and> the row \<le> r1 rng"
    unfolding rowIn_def by auto
  have ci: "colIn \<longleftrightarrow> col \<noteq> None \<and> the col \<ge> c0 rng \<and> the col \<le> c1 rng"
    unfolding colIn_def by auto
  have both: "row \<noteq> None \<and> col \<noteq> None \<and> inRange rng (the row) (the col) \<longleftrightarrow> rowIn \<and> colIn"
    unfolding ri ci inRange_def by auto
  have cellcase: "singleRow \<Longrightarrow> singleCol \<Longrightarrow> rowIn \<Longrightarrow> colIn \<Longrightarrow>
      the row = r0 rng \<and> the col = c0 rng \<and> row = Some (r0 rng) \<and> col = Some (c0 rng)"
    unfolding rowIn_def colIn_def singleRow_def singleCol_def by auto
  show ?thesis
    unfolding v both
    using cellcase ri ci by (auto simp del: upto.simps)
qed

text \<open>One input for each branch of the cascade, on the sheet of cell names.\<close>

theorem auto_alignment_cascade_witness:
  "\<forall>nf dp lcmp.
     sheetValuesAuto (asciiHost nf dp lcmp) (provRecord 1 1) (rangeCond (js ''B2'')) coordGrid = [js ''B2'']
   \<and> sheetValuesAuto (asciiHost nf dp lcmp) (provRecord 0 1) (rangeCond (js ''B2'')) coordGrid = []
   \<and> sheetValuesAuto (asciiHost nf dp lcmp) (provRecord 1 0) (rangeCond (js ''A1:B2'')) coordGrid = [js ''A2'']
   \<and> sheetValuesAuto (asciiHost nf dp lcmp) (provRecord 1 2) (rangeCond (js ''A1:A2'')) coordGrid = [js ''A2'']
   \<and> sheetValuesAuto (asciiHost nf dp lcmp) (provRecord 2 1) (rangeCond (js ''A1:B1'')) coordGrid = [js ''B1'']
   \<and> sheetValuesAuto (asciiHost nf dp lcmp) (provRecord 1 2) (rangeCond (js ''A1:B2'')) coordGrid
       = [js ''A2'', js ''B2'']
   \<and> sheetValuesAuto (asciiHost nf dp lcmp) (provRecord 2 1) (rangeCond (js ''A1:B2'')) coordGrid
       = [js ''B1'', js ''B2'']
   \<and> sheetValuesAuto (asciiHost nf dp lcmp) (provRecord 2 2) (rangeCond (js ''A1:B2'')) coordGrid
       = [js ''A1'', js ''B1'', js ''A2'', js ''B2'']"
proof (intro allI)
  fix nf dp lcmp
  define h where "h = asciiHost nf dp lcmp"
  have p1: "parseA1Range h (trim (sheetRangeA1 (rangeCond (js ''B2'')))) = Some \<lparr> r0 = 1, c0 = 1, r1 = 1, c1 = 1 \<rparr>"
    and p2: "parseA1Range h (trim (sheetRangeA1 (rangeCond (js ''A1:B2'')))) = Some \<lparr> r0 = 0, c0 = 0, r1 = 1, c1 = 1 \<rparr>"
    and p3: "parseA1Range h (trim (sheetRangeA1 (rangeCond (js ''A1:A2'')))) = Some \<lparr> r0 = 0, c0 = 0, r1 = 1, c1 = 0 \<rparr>"
    and p4: "parseA1Range h (trim (sheetRangeA1 (rangeCond (js ''A1:B1'')))) = Some \<lparr> r0 = 0, c0 = 0, r1 = 0, c1 = 1 \<rparr>"
    unfolding h_def by code_simp+
  have n: "normalizeRange \<lparr> r0 = 1, c0 = 1, r1 = 1, c1 = 1 \<rparr> coordGrid = \<lparr> r0 = 1, c0 = 1, r1 = 1, c1 = 1 \<rparr>"
    "normalizeRange \<lparr> r0 = 0, c0 = 0, r1 = 1, c1 = 1 \<rparr> coordGrid = \<lparr> r0 = 0, c0 = 0, r1 = 1, c1 = 1 \<rparr>"
    "normalizeRange \<lparr> r0 = 0, c0 = 0, r1 = 1, c1 = 0 \<rparr> coordGrid = \<lparr> r0 = 0, c0 = 0, r1 = 1, c1 = 0 \<rparr>"
    "normalizeRange \<lparr> r0 = 0, c0 = 0, r1 = 0, c1 = 1 \<rparr> coordGrid = \<lparr> r0 = 0, c0 = 0, r1 = 0, c1 = 1 \<rparr>"
    by (simp_all add: normalizeRange_def coordGrid_def clamp_def)
  have f: "\<And>r c. numField (provRecord r c) (js ''__sheetRow'') = Some r"
    "\<And>r c. numField (provRecord r c) (js ''__sheetCol'') = Some c"
    by (simp_all add: numField_def provRecord_def js_def)
  have c: "cell coordGrid 1 1 = js ''B2''" "cell coordGrid 1 0 = js ''A2''" "cell coordGrid 0 1 = js ''B1''"
    "map (\<lambda>c. cell coordGrid 1 c) [0..1] = [js ''A2'', js ''B2'']"
    "map (\<lambda>r. cell coordGrid r 1) [0..1] = [js ''B1'', js ''B2'']"
    "concat (map (\<lambda>r. map (\<lambda>c. cell coordGrid r c) [0..1]) [0..1]) = [js ''A1'', js ''B1'', js ''A2'', js ''B2'']"
    by code_simp+
  show "sheetValuesAuto (asciiHost nf dp lcmp) (provRecord 1 1) (rangeCond (js ''B2'')) coordGrid = [js ''B2'']
   \<and> sheetValuesAuto (asciiHost nf dp lcmp) (provRecord 0 1) (rangeCond (js ''B2'')) coordGrid = []
   \<and> sheetValuesAuto (asciiHost nf dp lcmp) (provRecord 1 0) (rangeCond (js ''A1:B2'')) coordGrid = [js ''A2'']
   \<and> sheetValuesAuto (asciiHost nf dp lcmp) (provRecord 1 2) (rangeCond (js ''A1:A2'')) coordGrid = [js ''A2'']
   \<and> sheetValuesAuto (asciiHost nf dp lcmp) (provRecord 2 1) (rangeCond (js ''A1:B1'')) coordGrid = [js ''B1'']
   \<and> sheetValuesAuto (asciiHost nf dp lcmp) (provRecord 1 2) (rangeCond (js ''A1:B2'')) coordGrid
       = [js ''A2'', js ''B2'']
   \<and> sheetValuesAuto (asciiHost nf dp lcmp) (provRecord 2 1) (rangeCond (js ''A1:B2'')) coordGrid
       = [js ''B1'', js ''B2'']
   \<and> sheetValuesAuto (asciiHost nf dp lcmp) (provRecord 2 2) (rangeCond (js ''A1:B2'')) coordGrid
       = [js ''A1'', js ''B1'', js ''A2'', js ''B2'']"
    unfolding h_def [symmetric]
    using auto_alignment_cascade [OF p1, where rcd = "provRecord 1 1" and grid = coordGrid]
          auto_alignment_cascade [OF p1, where rcd = "provRecord 0 1" and grid = coordGrid]
          auto_alignment_cascade [OF p2, where rcd = "provRecord 1 0" and grid = coordGrid]
          auto_alignment_cascade [OF p3, where rcd = "provRecord 1 2" and grid = coordGrid]
          auto_alignment_cascade [OF p4, where rcd = "provRecord 2 1" and grid = coordGrid]
          auto_alignment_cascade [OF p2, where rcd = "provRecord 1 2" and grid = coordGrid]
          auto_alignment_cascade [OF p2, where rcd = "provRecord 2 1" and grid = coordGrid]
          auto_alignment_cascade [OF p2, where rcd = "provRecord 2 2" and grid = coordGrid]
    by (simp add: n f c del: upto.simps)
qed

subsection \<open>C8: unique headers\<close>

text \<open>
  Claim C8 says that the list \<open>makeUniqueHeaders\<close> returns has no two equal names. On
  the headers a, a, a_2 the second a becomes a_2 and the third header, the first
  occurrence of a_2, stays a_2: the result holds a_2 twice.
\<close>

theorem makeUniqueHeaders_collision:
  "makeUniqueHeaders [js ''a'', js ''a'', js ''a_2''] = [js ''a'', js ''a_2'', js ''a_2'']
   \<and> \<not> distinct (makeUniqueHeaders [js ''a'', js ''a'', js ''a_2''])"
  by code_simp

subsection \<open>C5: the differ\<close>

lemma onlyInLoop_counts:
  "onlyInLoop hs rs mine other = (out, mine') \<Longrightarrow>
     occurrences hs out k = min (occurrences hs rs k) (getCount mine k - getCount other k)
   \<and> getCount mine' k = getCount mine k - occurrences hs out k
   \<and> subseq out rs"
proof (induction rs arbitrary: mine out mine')
  case Nil
  then show ?case by (simp add: occurrences_def)
next
  case (Cons r rs)
  define k0 where "k0 = keyOf hs r"
  show ?case
  proof (cases "getCount mine k0 > getCount other k0")
    case True
    obtain out1 mine1 where l: "onlyInLoop hs rs (AList.update k0 (getCount mine k0 - 1) mine) other = (out1, mine1)"
      by (cases "onlyInLoop hs rs (AList.update k0 (getCount mine k0 - 1) mine) other")
    from Cons.prems True l have o: "out = r # out1" "mine' = mine1"
      by (simp_all add: Let_def k0_def)
    note ih = Cons.IH [OF l]
    show ?thesis
      using ih True unfolding o
      by (auto simp: occurrences_def getCount_update k0_def [symmetric])
  next
    case False
    with Cons.prems have l: "onlyInLoop hs rs mine other = (out, mine')"
      by (simp add: Let_def k0_def)
    note ih = Cons.IH [OF l]
    show ?thesis
      using ih False
      by (auto simp: occurrences_def k0_def [symmetric])
  qed
qed

lemma occurrences_countKeys: "getCount (countKeys hs rs) k = occurrences hs rs k"
  by (simp add: getCount_countKeys occurrences_def)

lemma occurrences_zero_Nil: "(\<And>k. occurrences hs rs k = 0) \<Longrightarrow> rs = []"
proof (cases rs)
  case Nil
  then show ?thesis by simp
next
  case (Cons r rs')
  assume "\<And>k. occurrences hs rs k = 0"
  then have "occurrences hs rs (keyOf hs r) = 0" by simp
  with Cons show ?thesis by (simp add: occurrences_def)
qed

lemma compareCsv_parts:
  fixes leftCsv rightCsv :: jstring
  defines "L \<equiv> parseCsvText leftCsv" and "R \<equiv> parseCsvText rightCsv"
  defines "hs \<equiv> (if commonHeaders L R \<noteq> [] then commonHeaders L R
                  else makeUniqueHeaders (nonEmptyHeaders L @ nonEmptyHeaders R))"
  shows "keyHeaders (compareCsv leftCsv rightCsv) = hs"
    and "occurrences hs (onlyInLeft (compareCsv leftCsv rightCsv)) k
           = occurrences hs (rows L) k - occurrences hs (rows R) k"
    and "occurrences hs (onlyInRight (compareCsv leftCsv rightCsv)) k
           = occurrences hs (rows R) k - occurrences hs (rows L) k"
    and "subseq (onlyInLeft (compareCsv leftCsv rightCsv)) (rows L)"
    and "subseq (onlyInRight (compareCsv leftCsv rightCsv)) (rows R)"
proof -
  obtain outL mineL where l1: "onlyInLoop hs (rows L) (countKeys hs (rows L)) (countKeys hs (rows R)) = (outL, mineL)"
    by (cases "onlyInLoop hs (rows L) (countKeys hs (rows L)) (countKeys hs (rows R))")
  obtain outR mineR where l2: "onlyInLoop hs (rows R) (countKeys hs (rows R)) mineL = (outR, mineR)"
    by (cases "onlyInLoop hs (rows R) (countKeys hs (rows R)) mineL")
  have res: "onlyInLeft (compareCsv leftCsv rightCsv) = outL"
    "onlyInRight (compareCsv leftCsv rightCsv) = outR"
    "keyHeaders (compareCsv leftCsv rightCsv) = hs"
    unfolding compareCsv_def Let_def L_def [symmetric] R_def [symmetric] hs_def [symmetric]
    by (simp_all only: l1 l2 prod.case compareResult.simps)
  note a = onlyInLoop_counts [OF l1, unfolded occurrences_countKeys]
  note b = onlyInLoop_counts [OF l2, unfolded occurrences_countKeys]
  show "keyHeaders (compareCsv leftCsv rightCsv) = hs" by (rule res)
  show "occurrences hs (onlyInLeft (compareCsv leftCsv rightCsv)) k
           = occurrences hs (rows L) k - occurrences hs (rows R) k"
    unfolding res using a [of k] by arith
  show "occurrences hs (onlyInRight (compareCsv leftCsv rightCsv)) k
           = occurrences hs (rows R) k - occurrences hs (rows L) k"
    unfolding res using a [of k] b [of k] by arith
  show "subseq (onlyInLeft (compareCsv leftCsv rightCsv)) (rows L)"
    unfolding res using a by simp
  show "subseq (onlyInRight (compareCsv leftCsv rightCsv)) (rows R)"
    unfolding res using b by simp
qed

text \<open>
  Claim C5, amended. \<open>compareCsv\<close> keys the rows of both sides by the trimmed values of
  the headers it returns: the common headers when there is one, and otherwise all the
  non-empty headers of both sides, made unique. Under these headers a key is reported as
  only in the left side as many times as its number of occurrences on the left exceeds
  that on the right, and symmetrically; the reported rows are rows of their side, in order.
  Comparing a text with itself reports nothing on either side.
\<close>

theorem compareCsv_multiset_difference:
  fixes leftCsv rightCsv t :: jstring
  defines "L \<equiv> parseCsvText leftCsv" and "R \<equiv> parseCsvText rightCsv"
    and "res \<equiv> compareCsv leftCsv rightCsv"
  shows "keyHeaders res = (if commonHeaders L R \<noteq> [] then commonHeaders L R
                           else makeUniqueHeaders (nonEmptyHeaders L @ nonEmptyHeaders R))
       \<and> (\<forall>k. occurrences (keyHeaders res) (onlyInLeft res) k
                = occurrences (keyHeaders res) (rows L) k - occurrences (keyHeaders res) (rows R) k)
       \<and> (\<forall>k. occurrences (keyHeaders res) (onlyInRight res) k
                = occurrences (keyHeaders res) (rows R) k - occurrences (keyHeaders res) (rows L) k)
       \<and> subseq (onlyInLeft res) (rows L) \<and> subseq (onlyInRight res) (rows R)
       \<and> onlyInLeft (compareCsv t t) = [] \<and> onlyInRight (compareCsv t t) = []"
proof -
  note p = compareCsv_parts [of leftCsv rightCsv, folded L_def R_def res_def]
  have self1: "onlyInLeft (compareCsv t t) = []"
    using compareCsv_parts(2) [of t t] by (intro occurrences_zero_Nil) simp
  have self2: "onlyInRight (compareCsv t t) = []"
    using compareCsv_parts(3) [of t t] by (intro occurrences_zero_Nil) simp
  show ?thesis
    unfolding p(1) using p(2-5) self1 self2 by simp
qed

text \<open>
  The claim as stated keys the rows by the common headers. The texts \<open>csvA\<close> and \<open>csvB\<close>
  have no common header, so under the common headers their two rows have the same
  (empty) key, once on each side, and no row would be reported; \<open>compareCsv\<close> reports one
  row on each side.
\<close>

theorem compareCsv_common_headers_counterexample:
  "commonHeaders (parseCsvText csvA) (parseCsvText csvB) = []
   \<and> occurrences [] (rows (parseCsvText csvA)) [] = 1
   \<and> occurrences [] (rows (parseCsvText csvB)) [] = 1
   \<and> length (onlyInLeft (compareCsv csvA csvB)) = 1
   \<and> length (onlyInRight (compareCsv csvA csvB)) = 1
   \<and> occurrences (commonHeaders (parseCsvText csvA) (parseCsvText csvB))
        (onlyInLeft (compareCsv csvA csvB)) []
      \<noteq> occurrences (commonHeaders (parseCsvText csvA) (parseCsvText csvB))
          (rows (parseCsvText csvA)) []
        - occurrences (commonHeaders (parseCsvText csvA) (parseCsvText csvB))
            (rows (parseCsvText csvB)) []"
proof -
  have pa: "parseCsvText csvA = \<lparr> headers = [js ''a''], rows = [[(js ''a'', Str (js ''1''))]] \<rparr>"
    by code_simp
  have pb: "parseCsvText csvB = \<lparr> headers = [js ''b''], rows = [[(js ''b'', Str (js ''1''))]] \<rparr>"
    by code_simp
  have cmp: "compareCsv csvA csvB =
     \<lparr> summary = js ''Compare result:'' @ [0x0A]
             @ js ''- Generated rows: 1'' @ [0x0A]
             @ js ''- Other rows: 1'' @ [0x0A]
             @ js ''- Only in generated: 1'' @ [0x0A]
             @ js ''- Only in other: 1'' @ [0x0A]
             @ js ''- Headers differ. Comparing on common headers: 0/1.'',
       onlyInLeft = [[(js ''a'', Str (js ''1''))]],
       onlyInRight = [[(js ''b'', Str (js ''1''))]],
       keyHeaders = [js ''a'', js ''b''] \<rparr>"
    by code_simp
  have ch: "commonHeaders \<lparr> headers = [js ''a''], rows = [[(js ''a'', Str (js ''1''))]] \<rparr>
              \<lparr> headers = [js ''b''], rows = [[(js ''b'', Str (js ''1''))]] \<rparr> = []"
    by code_simp
  show ?thesis
    unfolding pa pb cmp ch by (simp add: occurrences_def keyOf_def)
qed

text \<open>On the same two texts, under the headers a and b that the code falls back to.\<close>

theorem compareCsv_multiset_difference_witness:
  "keyHeaders (compareCsv csvA csvB) = [js ''a'', js ''b'']
   \<and> occurrences [js ''a'', js ''b''] (onlyInLeft (compareCsv csvA csvB)) (js ''1'' @ [0x241F]) = 1
   \<and> occurrences [js ''a'', js ''b''] (onlyInRight (compareCsv csvA csvB)) ([0x241F] @ js ''1'') = 1
   \<and> onlyInLeft (compareCsv csvA csvA) = [] \<and> onlyInRight (compareCsv csvA csvA) = []"
proof -
  have pa: "parseCsvText csvA = \<lparr> headers = [js ''a''], rows = [[(js ''a'', Str (js ''1''))]] \<rparr>"
    by code_simp
  have pb: "parseCsvText csvB = \<lparr> headers = [js ''b''], rows = [[(js ''b'', Str (js ''1''))]] \<rparr>"
    by code_simp
  have ch: "commonHeaders \<lparr> headers = [js ''a''], rows = [[(js ''a'', Str (js ''1''))]] \<rparr>
              \<lparr> headers = [js ''b''], rows = [[(js ''b'', Str (js ''1''))]] \<rparr> = []"
    by code_simp
  have mu: "makeUniqueHeaders
              (nonEmptyHeaders \<lparr> headers = [js ''a''], rows = [[(js ''a'', Str (js ''1''))]] \<rparr>
               @ nonEmptyHeaders \<lparr> headers = [js ''b''], rows = [[(js ''b'', Str (js ''1''))]] \<rparr>)
            = [js ''a'', js ''b'']"
    by code_simp
  have oc: "occurrences [js ''a'', js ''b''] [[(js ''a'', Str (js ''1''))]] (js ''1'' @ [0x241F]) = 1"
    "occurrences [js ''a'', js ''b''] [[(js ''b'', Str (js ''1''))]] (js ''1'' @ [0x241F]) = 0"
    "occurrences [js ''a'', js ''b''] [[(js ''a'', Str (js ''1''))]] ([0x241F] @ js ''1'') = 0"
    "occurrences [js ''a'', js ''b''] [[(js ''b'', Str (js ''1''))]] ([0x241F] @ js ''1'') = 1"
    by code_simp+
  note t = compareCsv_multiset_difference [of csvA csvB csvA, unfolded pa pb ch mu]
  from t have k: "keyHeaders (compareCsv csvA csvB) = [js ''a'', js ''b'']"
    by simp
  from t have l: "occurrences [js ''a'', js ''b''] (onlyInLeft (compareCsv csvA csvB)) k
          = occurrences [js ''a'', js ''b''] [[(js ''a'', Str (js ''1''))]] k
            - occurrences [js ''a'', js ''b''] [[(js ''b'', Str (js ''1''))]] k" for k
    unfolding k by simp
  from t have r: "occurrences [js ''a'', js ''b''] (onlyInRight (compareCsv csvA csvB)) k
          = occurrences [js ''a'', js ''b''] [[(js ''b'', Str (js ''1''))]] k
            - occurrences [js ''a'', js ''b''] [[(js ''a'', Str (js ''1''))]] k" for k
    unfolding k by simp
  from t have s: "onlyInLeft (compareCsv csvA csvA) = []" "onlyInRight (compareCsv csvA csvA) = []"
    by simp_all
  show ?thesis
    unfolding k l r oc s by simp
qed

subsection \<open>C1: pair expansion\<close>

lemma concat_nth_uniform:
  "\<forall>xs\<in>set xss. length xs = w \<Longrightarrow> i < length xss \<Longrightarrow> j < w \<Longrightarrow>
   concat xss ! (i * w + j) = xss ! i ! j"
proof (induction xss arbitrary: i)
  case Nil
  then show ?case by simp
next
  case (Cons a xss)
  show ?case
  proof (cases i)
    case 0
    with Cons.prems show ?thesis by (simp add: nth_append)
  next
    case (Suc i')
    with Cons.prems have "concat xss ! (i' * w + j) = xss ! i' ! j"
      by (intro Cons.IH) auto
    with Suc Cons.prems show ?thesis by (simp add: nth_append)
  qed
qed

lemma length_concat_uniform:
  "\<forall>xs\<in>set xss. length xs = w \<Longrightarrow> length (concat xss) = length xss * w"
  by (induction xss) auto

lemma getRangeVector_vertical:
  assumes "n = normalizeRange rng grid" "c0 n = c1 n"
  shows "getRangeVector grid n = map (\<lambda>r. cell grid r (c0 n)) [r0 n..r1 n]"
proof -
  have "normalizeRange n grid = n" using assms(1) by (simp add: normalizeRange_idem)
  then show ?thesis
    using assms(2) by (simp add: getRangeVector_def getRange2D_def Let_def comp_def)
qed

lemma getRangeVector_horizontal:
  assumes "n = normalizeRange rng grid" "c0 n \<noteq> c1 n" "r0 n = r1 n"
  shows "getRangeVector grid n = map (\<lambda>c. cell grid (r0 n) c) [c0 n..c1 n]"
proof -
  have "normalizeRange n grid = n" using assms(1) by (simp add: normalizeRange_idem)
  then show ?thesis
    using assms(2,3) by (simp add: getRangeVector_def getRange2D_def Let_def comp_def)
qed

lemma upto_nth_in: "a \<le> x \<Longrightarrow> x \<le> b \<Longrightarrow> [a..b] ! nat (x - a) = x \<and> nat (x - a) < length [a..b]"
  by (simp add: nth_upto)

lemma getRangeVector_single_row:
  assumes "n = normalizeRange rng grid" "r0 n = r1 n"
  shows "getRangeVector grid n = map (\<lambda>c. cell grid (r0 n) c) [c0 n..c1 n]"
proof (cases "c0 n = c1 n")
  case True
  with getRangeVector_vertical [OF assms(1) True] assms(2) show ?thesis by simp
next
  case False
  then show ?thesis by (rule getRangeVector_horizontal [OF assms(1) _ assms(2)])
qed

lemma objA_bounds:
  assumes "objAR = normalizeRange a grid" "c0 objAR = c1 objAR \<or> r0 objAR = r1 objAR"
  shows "(idxA objAR ar ac < 0 \<or> idxA objAR ar ac \<ge> int (length (map trim (getRangeVector grid objAR))))
         \<longleftrightarrow> \<not> alignedA objAR ar ac"
proof (cases "c0 objAR = c1 objAR")
  case True
  show ?thesis
    unfolding getRangeVector_vertical [OF assms(1) True]
    using True normalizeRange_ordered(1) [of a grid, folded assms(1)]
    by (auto simp: idxA_def alignedA_def)
next
  case False
  with assms(2) have r: "r0 objAR = r1 objAR" by simp
  show ?thesis
    unfolding getRangeVector_horizontal [OF assms(1) False r]
    using False normalizeRange_ordered(2) [of a grid, folded assms(1)]
    by (auto simp: idxA_def alignedA_def)
qed

lemma objA_label:
  assumes "objAR = normalizeRange a grid" "c0 objAR = c1 objAR \<or> r0 objAR = r1 objAR"
    and "alignedA objAR ar ac"
  shows "trim (map trim (getRangeVector grid objAR) ! nat (idxA objAR ar ac)) = labelA grid objAR ar ac"
proof (cases "c0 objAR = c1 objAR")
  case True
  with assms(3) have b: "r0 objAR \<le> ar" "ar \<le> r1 objAR" by (simp_all add: alignedA_def)
  show ?thesis
    unfolding getRangeVector_vertical [OF assms(1) True]
    using True upto_nth_in [OF b] by (simp add: idxA_def labelA_def trim_idem)
next
  case False
  with assms(2) have r: "r0 objAR = r1 objAR" by simp
  from False assms(3) have b: "c0 objAR \<le> ac" "ac \<le> c1 objAR" by (simp_all add: alignedA_def)
  show ?thesis
    unfolding getRangeVector_horizontal [OF assms(1) False r]
    using False upto_nth_in [OF b] by (simp add: idxA_def labelA_def trim_idem)
qed

lemma objB_bounds:
  assumes "objBR = normalizeRange b grid" "c0 objBR = c1 objBR \<or> r0 objBR = r1 objBR"
  shows "(idxB objBR ar ac < 0 \<or> idxB objBR ar ac \<ge> int (length (map trim (getRangeVector grid objBR))))
         \<longleftrightarrow> \<not> alignedB objBR ar ac"
proof (cases "r0 objBR = r1 objBR")
  case True
  show ?thesis
    unfolding getRangeVector_single_row [OF assms(1) True]
    using True normalizeRange_ordered(2) [of b grid, folded assms(1)]
    by (auto simp: idxB_def alignedB_def)
next
  case False
  with assms(2) have c: "c0 objBR = c1 objBR" by simp
  show ?thesis
    unfolding getRangeVector_vertical [OF assms(1) c]
    using False normalizeRange_ordered(1) [of b grid, folded assms(1)]
    by (auto simp: idxB_def alignedB_def)
qed

lemma objB_label:
  assumes "objBR = normalizeRange b grid" "c0 objBR = c1 objBR \<or> r0 objBR = r1 objBR"
    and "alignedB objBR ar ac"
  shows "trim (map trim (getRangeVector grid objBR) ! nat (idxB objBR ar ac)) = labelB grid objBR ar ac"
proof (cases "r0 objBR = r1 objBR")
  case True
  with assms(3) have b: "c0 objBR \<le> ac" "ac \<le> c1 objBR" by (simp_all add: alignedB_def)
  show ?thesis
    unfolding getRangeVector_single_row [OF assms(1) True]
    using True upto_nth_in [OF b] by (simp add: idxB_def labelB_def trim_idem)
next
  case False
  with assms(2) have c: "c0 objBR = c1 objBR" by simp
  from False assms(3) have b: "r0 objBR \<le> ar" "ar \<le> r1 objBR" by (simp_all add: alignedB_def)
  show ?thesis
    unfolding getRangeVector_vertical [OF assms(1) c]
    using False upto_nth_in [OF b] by (simp add: idxB_def labelB_def trim_idem)
qed

lemma matrix_nth:
  assumes "matR = normalizeRange m grid" "inRange matR ar ac"
  shows "map (map trim) (getRange2D grid matR) ! nat (ar - r0 matR) ! nat (ac - c0 matR)
           = trim (cell grid ar ac)"
proof -
  from assms(2) have r: "r0 matR \<le> ar" "ar \<le> r1 matR" and c: "c0 matR \<le> ac" "ac \<le> c1 matR"
    by (simp_all add: inRange_def)
  have "getRange2D grid matR
     = map (\<lambda>r. map (\<lambda>c. cell grid r c) [c0 matR..c1 matR]) [r0 matR..r1 matR]"
    unfolding assms(1) by (rule getRange2D_normalized)
  then show ?thesis
    using upto_nth_in [OF r] upto_nth_in [OF c] by simp
qed

lemma markOutcomeAt_cell:
  assumes "matR = normalizeRange m grid" "inRange matR ar ac"
    and "objAR = normalizeRange a grid" "c0 objAR = c1 objAR \<or> r0 objAR = r1 objAR"
    and "objBR = normalizeRange b grid" "c0 objBR = c1 objBR \<or> r0 objBR = r1 objBR"
  shows "markOutcomeAt h markSet objAR objBR matR
           (map trim (getRangeVector grid objAR)) (map trim (getRangeVector grid objBR))
           (map (map trim) (getRange2D grid matR)) (nat (ar - r0 matR)) (nat (ac - c0 matR))
         = cellOutcome h markSet grid objAR objBR ar ac"
proof -
  from assms(2) have abs: "r0 matR + int (nat (ar - r0 matR)) = ar"
    "c0 matR + int (nat (ac - c0 matR)) = ac"
    by (simp_all add: inRange_def)
  note bA = objA_bounds [OF assms(3,4), of ar ac]
  note bB = objB_bounds [OF assms(5,6), of ar ac]
  show ?thesis
  proof (cases "alignedA objAR ar ac \<and> alignedB objBR ar ac")
    case True
    then have la: "trim (map trim (getRangeVector grid objAR) ! nat (idxA objAR ar ac)) = labelA grid objAR ar ac"
      and lb: "trim (map trim (getRangeVector grid objBR) ! nat (idxB objBR ar ac)) = labelB grid objBR ar ac"
      using objA_label [OF assms(3,4)] objB_label [OF assms(5,6)] by simp_all
    from True bA bB have inb: "\<not> (idxA objAR ar ac < 0 \<or> idxA objAR ar ac \<ge> int (length (map trim (getRangeVector grid objAR)))
        \<or> idxB objBR ar ac < 0 \<or> idxB objBR ar ac \<ge> int (length (map trim (getRangeVector grid objBR))))"
      by blast
    show ?thesis
      unfolding markOutcomeAt_def cellOutcome_def Let_def matrix_nth [OF assms(1,2)] abs trim_idem
      using True inb la lb by (simp only: if_True if_False simp_thms)
  next
    case False
    with bA bB have oob: "idxA objAR ar ac < 0 \<or> idxA objAR ar ac \<ge> int (length (map trim (getRangeVector grid objAR)))
        \<or> idxB objBR ar ac < 0 \<or> idxB objBR ar ac \<ge> int (length (map trim (getRangeVector grid objBR)))"
      by blast
    show ?thesis
      unfolding markOutcomeAt_def cellOutcome_def Let_def matrix_nth [OF assms(1,2)] abs trim_idem
      using False oob by (simp only: if_True if_False simp_thms)
  qed
qed

lemma length_pair_rows:
  "length (concat (map (\<lambda>x. case x of Pair l r a c \<Rightarrow> [g l r a c] | _ \<Rightarrow> []) xs))
     = length (filter isPair xs)"
  by (induction xs) (auto simp: isPair_def split: markOutcome.splits)

lemma scan_rows:
  assumes "length matrix = H" "\<forall>row\<in>set matrix. length row = W"
  shows "map (\<lambda>i. map (\<lambda>j. f i j) [0..<length (matrix ! i)]) [0..<length matrix]
         = map (\<lambda>i. map (\<lambda>j. f i j) [0..<W]) [0..<H]"
  using assms by (intro map_cong) auto

lemma scan_nth:
  assumes "length matrix = H" "\<forall>row\<in>set matrix. length row = W" "i < H" "j < W"
  shows "concat (map (\<lambda>i. map (\<lambda>j. f i j) [0..<length (matrix ! i)]) [0..<length matrix]) ! (i * W + j)
           = f i j"
proof -
  have u: "\<forall>xs\<in>set (map (\<lambda>i. map (\<lambda>j. f i j) [0..<W]) [0..<H]). length xs = W"
    by auto
  show ?thesis
    unfolding scan_rows [OF assms(1,2)] using concat_nth_uniform [OF u, of i j] assms(3,4) by simp
qed

lemma scan_length:
  assumes "length matrix = H" "\<forall>row\<in>set matrix. length row = W"
  shows "length (concat (map (\<lambda>i. map (\<lambda>j. f i j) [0..<length (matrix ! i)]) [0..<length matrix]))
           = H * W"
proof -
  have u: "\<forall>xs\<in>set (map (\<lambda>i. map (\<lambda>j. f i j) [0..<W]) [0..<H]). length xs = W"
    by auto
  show ?thesis
    unfolding scan_rows [OF assms(1,2)] using length_concat_uniform [OF u] by simp
qed

lemma matrix_shape:
  assumes "matR = normalizeRange m grid"
  shows "length (map (map trim) (getRange2D grid matR)) = nat (r1 matR - r0 matR + 1)"
    and "\<forall>row\<in>set (map (map trim) (getRange2D grid matR)). length row = nat (c1 matR - c0 matR + 1)"
  unfolding assms getRange2D_normalized by auto

lemma assignTable_Inr:
  assumes tbl: "assignTable h cfg grid = Inr t"
    and pA: "parseA1Range h (assignObjARange cfg) = Some aR0"
    and pB: "parseA1Range h (assignObjBRange cfg) = Some bR0"
    and pM: "parseA1Range h (assignMatrixRange cfg) = Some mR0"
  defines "objAR \<equiv> normalizeRange aR0 grid"
    and "objBR \<equiv> normalizeRange bR0 grid"
    and "matR \<equiv> normalizeRange mR0 grid"
  defines "matrix \<equiv> map (map trim) (getRange2D grid matR)"
    and "markSet \<equiv> map (toLowerCase h)
                     (filter (\<lambda>m. m \<noteq> []) (map trim (splitOn 0x2C (assignMarkValues cfg))))"
  shows "c0 objAR = c1 objAR \<or> r0 objAR = r1 objAR"
    and "c0 objBR = c1 objBR \<or> r0 objBR = r1 objBR"
    and "outcomes t =
           concat (map (\<lambda>i. map (\<lambda>j. markOutcomeAt h markSet objAR objBR matR
                                       (map trim (getRangeVector grid objAR))
                                       (map trim (getRangeVector grid objBR)) matrix i j)
                              [0..<length (matrix ! i)])
                   [0..<length matrix])"
    and "length (outRows t) = length (filter isPair (outcomes t))"
proof -
  define allHs where "allHs = makeUniqueHeaders
     ([if trim (assignAHeader cfg) = [] then js ''ObjectA'' else trim (assignAHeader cfg),
       if trim (assignBHeader cfg) = [] then js ''ObjectB'' else trim (assignBHeader cfg)]
      @ filter (\<lambda>x. x \<noteq> []) (map (\<lambda>c. trim (header c)) (assignExtraColumns cfg)))"
  define g where "g = pairRecord h grid (allHs ! 0) (allHs ! 1) (drop 2 allHs) (assignExtraColumns cfg)"
  define outs where "outs =
           concat (map (\<lambda>i. map (\<lambda>j. markOutcomeAt h markSet objAR objBR matR
                                       (map trim (getRangeVector grid objAR))
                                       (map trim (getRangeVector grid objBR)) matrix i j)
                              [0..<length (matrix ! i)])
                   [0..<length matrix])"
  define ws where "ws = (if \<not> (c0 objAR = c1 objAR \<or> r0 objAR = r1 objAR)
                     then [js ''Object A range must be a single column or single row.''] else [])
                    @ (if \<not> (c0 objBR = c1 objBR \<or> r0 objBR = r1 objBR)
                       then [js ''Object B range must be a single column or single row.''] else [])"
  note d = tbl [unfolded assignTable_def pA pB pM prod.case option.case Let_def,
      folded objAR_def objBR_def matR_def, folded matrix_def markSet_def,
      folded allHs_def, folded g_def outs_def ws_def]
  from d have w: "ws = []" by (cases "ws = []") simp_all
  show a: "c0 objAR = c1 objAR \<or> r0 objAR = r1 objAR"
    using w unfolding ws_def by (auto split: if_splits)
  show b: "c0 objBR = c1 objBR \<or> r0 objBR = r1 objBR"
    using w unfolding ws_def by (auto split: if_splits)
  from d w have t: "t = \<lparr> outRows = concat (map (\<lambda>x. case x of
                                 Pair left right absRow absCol \<Rightarrow> [g left right absRow absCol]
                               | _ \<Rightarrow> []) outs),
                          outcomes = outs, allHeadersUnique = allHs \<rparr>"
    by simp
  show "outcomes t =
           concat (map (\<lambda>i. map (\<lambda>j. markOutcomeAt h markSet objAR objBR matR
                                       (map trim (getRangeVector grid objAR))
                                       (map trim (getRangeVector grid objBR)) matrix i j)
                              [0..<length (matrix ! i)])
                   [0..<length matrix])"
    by (subst t) (simp add: outs_def)
  have "outRows t = concat (map (\<lambda>x. case x of
                                 Pair left right absRow absCol \<Rightarrow> [g left right absRow absCol]
                               | _ \<Rightarrow> []) outs)"
    and "outcomes t = outs"
    by (subst t, simp)+
  then show "length (outRows t) = length (filter isPair (outcomes t))"
    by (simp only: length_pair_rows)
qed

lemma assignTable_example:
  "assignTable (asciiHost nf dp lcmp) assignCfg assignGrid
     = Inr \<lparr> outRows = [[(js ''A'', Str (js ''R2'')), (js ''B'', Str (js ''E2'')),
                          (js ''__sheetRow'', Num 1), (js ''__sheetCol'', Num 2)]],
             outcomes = [NotMarked, Pair (js ''R2'') (js ''E2'') 1 2, NotMarked,
                         NotMarked, NotMarked, OutOfBounds],
             allHeadersUnique = [js ''A'', js ''B''] \<rparr>"
  by code_simp

text \<open>
  Claim C1, amended. When \<open>assignTable\<close> reaches the loop, the scan of the matrix has one
  outcome per matrix cell, row by row, and the outcome of the cell at the absolute row
  \<open>ar\<close> and column \<open>ac\<close> is \<open>cellOutcome\<close>: a cell whose trimmed value is empty or,
  lower-cased, is no mark token is no mark; a mark that is not aligned with Object A and
  Object B is skipped as out of bounds; otherwise the labels are the cell of Object A in
  the mark's own sheet row (column, for a horizontal Object A) and the cell of Object B in
  the mark's own sheet column (row), and the pair is emitted unless a label is empty. The
  index into Object A is the absolute row minus Object A's top row (the absolute column
  minus its left column): it is the offset from the matrix's top row (left column)
  exactly when Object A starts on that row (column); symmetrically for Object B. There is
  one output row per emitted pair. On the sheet of the example exactly one pair is
  emitted, R2 with E2, and the second mark is skipped as out of bounds.
\<close>

theorem assignments_index_alignment:
  fixes h :: host and cfg :: assignConfig and grid :: Grid and t :: assignTable
    and aR0 bR0 mR0 :: RangeA1
  assumes tbl: "assignTable h cfg grid = Inr t"
    and pA: "parseA1Range h (assignObjARange cfg) = Some aR0"
    and pB: "parseA1Range h (assignObjBRange cfg) = Some bR0"
    and pM: "parseA1Range h (assignMatrixRange cfg) = Some mR0"
  defines "objAR \<equiv> normalizeRange aR0 grid"
    and "objBR \<equiv> normalizeRange bR0 grid"
    and "matR \<equiv> normalizeRange mR0 grid"
    and "markSet \<equiv> map (toLowerCase h)
                     (filter (\<lambda>m. m \<noteq> []) (map trim (splitOn 0x2C (assignMarkValues cfg))))"
  shows "length (outcomes t) = nat (r1 matR - r0 matR + 1) * nat (c1 matR - c0 matR + 1)
       \<and> (\<forall>ar ac. inRange matR ar ac \<longrightarrow>
             cellPos matR ar ac < length (outcomes t)
           \<and> outcomes t ! cellPos matR ar ac = cellOutcome h markSet grid objAR objBR ar ac)
       \<and> length (outRows t) = length (filter isPair (outcomes t))
       \<and> (\<forall>ar ac. idxA objAR ar ac = (if c0 objAR = c1 objAR then ar - r0 objAR else ac - c0 objAR)
                 \<and> idxB objBR ar ac = (if r0 objBR = r1 objBR then ac - c0 objBR else ar - r0 objBR))
       \<and> (\<forall>ar ac. (c0 objAR = c1 objAR \<longrightarrow>
                     (idxA objAR ar ac = ar - r0 matR \<longleftrightarrow> r0 objAR = r0 matR))
                 \<and> (c0 objAR \<noteq> c1 objAR \<longrightarrow>
                     (idxA objAR ar ac = ac - c0 matR \<longleftrightarrow> c0 objAR = c0 matR))
                 \<and> (r0 objBR = r1 objBR \<longrightarrow>
                     (idxB objBR ar ac = ac - c0 matR \<longleftrightarrow> c0 objBR = c0 matR))
                 \<and> (r0 objBR \<noteq> r1 objBR \<longrightarrow>
                     (idxB objBR ar ac = ar - r0 matR \<longleftrightarrow> r0 objBR = r0 matR)))
       \<and> assignTable (asciiHost nf dp lcmp) assignCfg assignGrid
           = Inr \<lparr> outRows = [[(js ''A'', Str (js ''R2'')), (js ''B'', Str (js ''E2'')),
                                (js ''__sheetRow'', Num 1), (js ''__sheetCol'', Num 2)]],
                   outcomes = [NotMarked, Pair (js ''R2'') (js ''E2'') 1 2, NotMarked,
                               NotMarked, NotMarked, OutOfBounds],
                   allHeadersUnique = [js ''A'', js ''B''] \<rparr>"
proof -
  define matrix where "matrix = map (map trim) (getRange2D grid matR)"
  define H where "H = nat (r1 matR - r0 matR + 1)"
  define W where "W = nat (c1 matR - c0 matR + 1)"
  note s = assignTable_Inr [OF tbl pA pB pM, folded objAR_def objBR_def matR_def,
      folded matrix_def markSet_def]
  have shape: "length matrix = H" "\<forall>row\<in>set matrix. length row = W"
    unfolding matrix_def H_def W_def using matrix_shape [OF matR_def [THEN meta_eq_to_obj_eq]]
    by simp_all
  have len: "length (outcomes t) = H * W"
    unfolding s(3) by (rule scan_length [OF shape])
  have cellAt: "cellPos matR ar ac < length (outcomes t)
           \<and> outcomes t ! cellPos matR ar ac = cellOutcome h markSet grid objAR objBR ar ac"
    if ir: "inRange matR ar ac" for ar ac
  proof -
    from ir have i: "nat (ar - r0 matR) < H" and j: "nat (ac - c0 matR) < W"
      by (auto simp: inRange_def H_def W_def)
    have pos: "cellPos matR ar ac = nat (ar - r0 matR) * W + nat (ac - c0 matR)"
      by (simp add: cellPos_def W_def)
    have "nat (ar - r0 matR) * W + nat (ac - c0 matR) < H * W"
    proof -
      have "nat (ar - r0 matR) * W + nat (ac - c0 matR) < nat (ar - r0 matR) * W + W"
        using j by simp
      also have "\<dots> = Suc (nat (ar - r0 matR)) * W" by simp
      also have "\<dots> \<le> H * W" using i by (intro mult_le_mono1) simp
      finally show ?thesis .
    qed
    then have lt: "cellPos matR ar ac < length (outcomes t)" by (simp add: pos len)
    have "outcomes t ! cellPos matR ar ac
        = markOutcomeAt h markSet objAR objBR matR
            (map trim (getRangeVector grid objAR)) (map trim (getRangeVector grid objBR))
            matrix (nat (ar - r0 matR)) (nat (ac - c0 matR))"
      unfolding s(3) pos by (rule scan_nth [OF shape i j])
    also have "\<dots> = cellOutcome h markSet grid objAR objBR ar ac"
      unfolding matrix_def
      by (rule markOutcomeAt_cell [OF matR_def [THEN meta_eq_to_obj_eq] ir
            objAR_def [THEN meta_eq_to_obj_eq] s(1) objBR_def [THEN meta_eq_to_obj_eq] s(2)])
    finally show ?thesis using lt by simp
  qed
  have idx: "idxA objAR ar ac = (if c0 objAR = c1 objAR then ar - r0 objAR else ac - c0 objAR)
                 \<and> idxB objBR ar ac = (if r0 objBR = r1 objBR then ac - c0 objBR else ar - r0 objBR)"
    for ar ac by (simp add: idxA_def idxB_def)
  have rel: "(c0 objAR = c1 objAR \<longrightarrow>
                     (idxA objAR ar ac = ar - r0 matR \<longleftrightarrow> r0 objAR = r0 matR))
                 \<and> (c0 objAR \<noteq> c1 objAR \<longrightarrow>
                     (idxA objAR ar ac = ac - c0 matR \<longleftrightarrow> c0 objAR = c0 matR))
                 \<and> (r0 objBR = r1 objBR \<longrightarrow>
                     (idxB objBR ar ac = ac - c0 matR \<longleftrightarrow> c0 objBR = c0 matR))
                 \<and> (r0 objBR \<noteq> r1 objBR \<longrightarrow>
                     (idxB objBR ar ac = ar - r0 matR \<longleftrightarrow> r0 objBR = r0 matR))"
    for ar ac by (auto simp: idxA_def idxB_def)
  have ex: "assignTable (asciiHost nf dp lcmp) assignCfg assignGrid
           = Inr \<lparr> outRows = [[(js ''A'', Str (js ''R2'')), (js ''B'', Str (js ''E2'')),
                                (js ''__sheetRow'', Num 1), (js ''__sheetCol'', Num 2)]],
                   outcomes = [NotMarked, Pair (js ''R2'') (js ''E2'') 1 2, NotMarked,
                               NotMarked, NotMarked, OutOfBounds],
                   allHeadersUnique = [js ''A'', js ''B''] \<rparr>"
    by (rule assignTable_example)
  from len cellAt s(4) idx rel ex show ?thesis
    unfolding H_def W_def by blast
qed

text \<open>
  The claim as stated takes the index as the offset from the matrix's top and expects the
  two pairs R1 with E2 and R2 with E3 on the example. The code emits the one pair R2 with
  E2 and skips the mark in D3: for the mark in C2 (absolute row 1) the index into Object A
  is 1, while its offset from the matrix's top row is 0.
\<close>

theorem assignments_example_counterexample:
  "assignTable exampleHost assignCfg assignGrid
     = Inr \<lparr> outRows = [[(js ''A'', Str (js ''R2'')), (js ''B'', Str (js ''E2'')),
                          (js ''__sheetRow'', Num 1), (js ''__sheetCol'', Num 2)]],
             outcomes = [NotMarked, Pair (js ''R2'') (js ''E2'') 1 2, NotMarked,
                         NotMarked, NotMarked, OutOfBounds],
             allHeadersUnique = [js ''A'', js ''B''] \<rparr>
   \<and> idxA \<lparr> r0 = 0, c0 = 0, r1 = 1, c1 = 0 \<rparr> 1 2 \<noteq> 1 - r0 \<lparr> r0 = 1, c0 = 1, r1 = 2, c1 = 3 \<rparr>"
  unfolding exampleHost_def assignTable_example by (simp add: idxA_def)

text \<open>
  On the sheet of the example: the marks in C2 and D3 and the empty cell B2, read off the
  scan through the theorem.
\<close>

theorem assignments_index_alignment_witness:
  "\<forall>nf dp lcmp.
     cellOutcome (asciiHost nf dp lcmp) [js ''x''] assignGrid
       \<lparr> r0 = 0, c0 = 0, r1 = 1, c1 = 0 \<rparr> \<lparr> r0 = 0, c0 = 1, r1 = 0, c1 = 3 \<rparr> 1 2
       = Pair (js ''R2'') (js ''E2'') 1 2
   \<and> cellOutcome (asciiHost nf dp lcmp) [js ''x''] assignGrid
       \<lparr> r0 = 0, c0 = 0, r1 = 1, c1 = 0 \<rparr> \<lparr> r0 = 0, c0 = 1, r1 = 0, c1 = 3 \<rparr> 2 3
       = OutOfBounds
   \<and> cellOutcome (asciiHost nf dp lcmp) [js ''x''] assignGrid
       \<lparr> r0 = 0, c0 = 0, r1 = 1, c1 = 0 \<rparr> \<lparr> r0 = 0, c0 = 1, r1 = 0, c1 = 3 \<rparr> 1 1
       = NotMarked"
proof (intro allI)
  fix nf dp lcmp
  define h where "h = asciiHost nf dp lcmp"
  have pA: "parseA1Range h (assignObjARange assignCfg) = Some \<lparr> r0 = 0, c0 = 0, r1 = 1, c1 = 0 \<rparr>"
    and pB: "parseA1Range h (assignObjBRange assignCfg) = Some \<lparr> r0 = 0, c0 = 1, r1 = 0, c1 = 3 \<rparr>"
    and pM: "parseA1Range h (assignMatrixRange assignCfg) = Some \<lparr> r0 = 1, c0 = 1, r1 = 2, c1 = 3 \<rparr>"
    unfolding h_def by code_simp+
  have n: "normalizeRange \<lparr> r0 = 0, c0 = 0, r1 = 1, c1 = 0 \<rparr> assignGrid = \<lparr> r0 = 0, c0 = 0, r1 = 1, c1 = 0 \<rparr>"
    "normalizeRange \<lparr> r0 = 0, c0 = 1, r1 = 0, c1 = 3 \<rparr> assignGrid = \<lparr> r0 = 0, c0 = 1, r1 = 0, c1 = 3 \<rparr>"
    "normalizeRange \<lparr> r0 = 1, c0 = 1, r1 = 2, c1 = 3 \<rparr> assignGrid = \<lparr> r0 = 1, c0 = 1, r1 = 2, c1 = 3 \<rparr>"
    by (simp_all add: normalizeRange_def assignGrid_def clamp_def)
  have ms: "map (toLowerCase h)
              (filter (\<lambda>m. m \<noteq> []) (map trim (splitOn 0x2C (assignMarkValues assignCfg)))) = [js ''x'']"
    unfolding h_def by code_simp
  have pos: "cellPos \<lparr> r0 = 1, c0 = 1, r1 = 2, c1 = 3 \<rparr> 1 2 = 1"
    "cellPos \<lparr> r0 = 1, c0 = 1, r1 = 2, c1 = 3 \<rparr> 2 3 = 5"
    "cellPos \<lparr> r0 = 1, c0 = 1, r1 = 2, c1 = 3 \<rparr> 1 1 = 0"
    by (simp_all add: cellPos_def)
  note t = assignments_index_alignment [OF assignTable_example [of nf dp lcmp, folded h_def] pA pB pM,
      unfolded n ms]
  from t have c: "inRange \<lparr> r0 = 1, c0 = 1, r1 = 2, c1 = 3 \<rparr> ar ac \<Longrightarrow>
      [NotMarked, Pair (js ''R2'') (js ''E2'') 1 2, NotMarked, NotMarked, NotMarked, OutOfBounds]
        ! cellPos \<lparr> r0 = 1, c0 = 1, r1 = 2, c1 = 3 \<rparr> ar ac
      = cellOutcome h [js ''x''] assignGrid
          \<lparr> r0 = 0, c0 = 0, r1 = 1, c1 = 0 \<rparr> \<lparr> r0 = 0, c0 = 1, r1 = 0, c1 = 3 \<rparr> ar ac" for ar ac
    by simp
  show "cellOutcome (asciiHost nf dp lcmp) [js ''x''] assignGrid
       \<lparr> r0 = 0, c0 = 0, r1 = 1, c1 = 0 \<rparr> \<lparr> r0 = 0, c0 = 1, r1 = 0, c1 = 3 \<rparr> 1 2
       = Pair (js ''R2'') (js ''E2'') 1 2
   \<and> cellOutcome (asciiHost nf dp lcmp) [js ''x''] assignGrid
       \<lparr> r0 = 0, c0 = 0, r1 = 1, c1 = 0 \<rparr> \<lparr> r0 = 0, c0 = 1, r1 = 0, c1 = 3 \<rparr> 2 3
       = OutOfBounds
   \<and> cellOutcome (asciiHost nf dp lcmp) [js ''x''] assignGrid
       \<lparr> r0 = 0, c0 = 0, r1 = 1, c1 = 0 \<rparr> \<lparr> r0 = 0, c0 = 1, r1 = 0, c1 = 3 \<rparr> 1 1
       = NotMarked"
    unfolding h_def [symmetric]
    using c [of 1 2] c [of 2 3] c [of 1 1] by (simp add: pos inRange_def)
qed

subsection \<open>C2: CSV round trip\<close>

lemma replaceCRLF_id: "0x0D \<notin> set s \<Longrightarrow> replaceCRLF s = s"
  by (induction s rule: replaceCRLF.induct) auto

lemma replaceCR_id: "0x0D \<notin> set s \<Longrightarrow> replaceCR s = s"
  by (induction s) (auto simp: replaceCR_def)

lemma csvEscape_set: "set (csvEscape v) \<subseteq> insert 0x22 (set v)"
  by (auto simp: csvEscape_def Let_def split: if_splits)

lemma join_set: "set (join sep xs) \<subseteq> set sep \<union> \<Union> (set ` set xs)"
  by (induction sep xs rule: join.induct) auto

lemma csvLoop_plain:
  "\<forall>c\<in>set v. c \<noteq> 0x22 \<and> c \<noteq> 0x2C \<and> c \<noteq> 0x0A \<Longrightarrow>
   csvLoop (v @ rest) R row cur False = csvLoop rest R row (cur @ v) False"
  by (induction v arbitrary: cur) auto

lemma csvLoop_quoted:
  "rest = [] \<or> hd rest \<noteq> 0x22 \<Longrightarrow>
   csvLoop (concat (map (\<lambda>c. if c = 0x22 then [0x22, 0x22] else [c]) v) @ [0x22] @ rest) R row cur True
     = csvLoop rest R row (cur @ v) False"
proof (induction v arbitrary: cur)
  case Nil
  then show ?case by (cases rest) auto
next
  case (Cons c v)
  then show ?case by (cases "c = 0x22") auto
qed

lemma csvLoop_field:
  assumes "rest = [] \<or> hd rest \<noteq> 0x22"
  shows "csvLoop (csvEscape v @ rest) R row [] False = csvLoop rest R row v False"
proof (cases "list_ex (\<lambda>c. c = 0x22 \<or> c = 0x2C \<or> c = 0x0A \<or> c = 0x0D) v")
  case True
  then have "csvEscape v = [0x22] @ concat (map (\<lambda>c. if c = 0x22 then [0x22, 0x22] else [c]) v) @ [0x22]"
    by (simp add: csvEscape_def)
  then show ?thesis
    using csvLoop_quoted [OF assms, of v R row "[]"] by simp
next
  case False
  then have n: "\<forall>c\<in>set v. c \<noteq> 0x22 \<and> c \<noteq> 0x2C \<and> c \<noteq> 0x0A"
    by (auto simp: list_ex_iff)
  then have "concat (map (\<lambda>c. if c = 0x22 then [0x22, 0x22] else [c]) v) = v"
    by (induction v) auto
  with False have "csvEscape v = v" by (simp add: csvEscape_def)
  then show ?thesis using csvLoop_plain [OF n, of rest R row "[]"] by simp
qed

lemma csvLoop_row:
  "vs \<noteq> [] \<Longrightarrow> rest = [] \<or> hd rest = 0x0A \<Longrightarrow>
   csvLoop (join [0x2C] (map csvEscape vs) @ rest) R row [] False
     = csvLoop rest R (row @ butlast vs) (last vs) False"
proof (induction vs arbitrary: row)
  case Nil
  then show ?case by simp
next
  case (Cons v ws)
  show ?case
  proof (cases ws)
    case Nil
    from Cons.prems(2) have "rest = [] \<or> hd rest \<noteq> 0x22" by auto
    with Nil show ?thesis by (simp add: csvLoop_field)
  next
    case (Cons w ws')
    have "csvLoop (csvEscape v @ (0x2C # join [0x2C] (map csvEscape ws) @ rest)) R row [] False
        = csvLoop (0x2C # join [0x2C] (map csvEscape ws) @ rest) R row v False"
      by (rule csvLoop_field) simp
    also have "\<dots> = csvLoop (join [0x2C] (map csvEscape ws) @ rest) R (row @ [v]) [] False"
      by simp
    also have "\<dots> = csvLoop rest R ((row @ [v]) @ butlast ws) (last ws) False"
      using Cons by (intro Cons.IH Cons.prems(2)) simp
    finally show ?thesis using Cons by simp
  qed
qed

lemma csvLoop_lines:
  "ls \<noteq> [] \<Longrightarrow> \<forall>vs\<in>set ls. vs \<noteq> [] \<Longrightarrow>
   csvLoop (join [0x0A] (map (\<lambda>vs. join [0x2C] (map csvEscape vs)) ls)) R [] [] False = R @ ls"
proof (induction ls arbitrary: R)
  case Nil
  then show ?case by simp
next
  case (Cons vs ls)
  from Cons.prems have vs: "vs \<noteq> []" by simp
  show ?case
  proof (cases ls)
    case Nil
    with csvLoop_row [OF vs, of "[]" R "[]"] vs show ?thesis by simp
  next
    case (Cons ws ls')
    have "csvLoop (join [0x2C] (map csvEscape vs)
                   @ (0x0A # join [0x0A] (map (\<lambda>vs. join [0x2C] (map csvEscape vs)) ls))) R [] [] False
        = csvLoop (0x0A # join [0x0A] (map (\<lambda>vs. join [0x2C] (map csvEscape vs)) ls)) R
            ([] @ butlast vs) (last vs) False"
      by (rule csvLoop_row [OF vs]) simp
    also have "\<dots> = csvLoop (join [0x0A] (map (\<lambda>vs. join [0x2C] (map csvEscape vs)) ls))
                       (R @ [vs]) [] [] False"
      using vs by simp
    also have "\<dots> = (R @ [vs]) @ ls"
      using Cons Cons.prems by (intro Cons.IH) simp_all
    finally show ?thesis using Cons by simp
  qed
qed

lemma toCsv_lines:
  "toCsv hs rs = join [0x0A] (map (\<lambda>vs. join [0x2C] (map csvEscape vs))
                      (hs # map (\<lambda>r. map (fieldString r) hs) rs))"
  by (simp add: toCsv_def comp_def)

lemma join_avoids:
  "c \<notin> set sep \<Longrightarrow> \<forall>x\<in>set xs. c \<notin> set x \<Longrightarrow> c \<notin> set (join sep xs)"
  by (induction sep xs rule: join.induct) auto

lemma csvEscape_avoids: "c \<noteq> 0x22 \<Longrightarrow> c \<notin> set v \<Longrightarrow> c \<notin> set (csvEscape v)"
  using csvEscape_set [of v] by auto

lemma line_no_CR:
  assumes "\<forall>v\<in>set vs. 0x0D \<notin> set v"
  shows "0x0D \<notin> set (join [0x2C] (map csvEscape vs))"
proof (rule join_avoids)
  show "0x0D \<notin> set [0x2C :: jschar]" by simp
  show "\<forall>x\<in>set (map csvEscape vs). 0x0D \<notin> set x"
    using assms by (simp add: csvEscape_avoids)
qed

lemma toCsv_no_CR:
  assumes "\<forall>h\<in>set hs. 0x0D \<notin> set h" "\<forall>r\<in>set rs. \<forall>h\<in>set hs. 0x0D \<notin> set (fieldString r h)"
  shows "0x0D \<notin> set (toCsv hs rs)"
  unfolding toCsv_lines
proof (rule join_avoids)
  show "0x0D \<notin> set [0x0A :: jschar]" by simp
  have all: "\<forall>vs\<in>set (hs # map (\<lambda>r. map (fieldString r) hs) rs). \<forall>v\<in>set vs. 0x0D \<notin> set v"
    using assms by auto
  show "\<forall>x\<in>set (map (\<lambda>vs. join [0x2C] (map csvEscape vs))
                    (hs # map (\<lambda>r. map (fieldString r) hs) rs)). 0x0D \<notin> set x"
  proof
    fix x
    assume "x \<in> set (map (\<lambda>vs. join [0x2C] (map csvEscape vs))
                    (hs # map (\<lambda>r. map (fieldString r) hs) rs))"
    then obtain vs where vs: "vs \<in> set (hs # map (\<lambda>r. map (fieldString r) hs) rs)"
      and x: "x = join [0x2C] (map csvEscape vs)"
      unfolding set_map by (elim imageE)
    from all vs have "\<forall>v\<in>set vs. 0x0D \<notin> set v" by (rule bspec)
    then show "0x0D \<notin> set x" unfolding x by (rule line_no_CR)
  qed
qed

lemma popBlankRows_header:
  assumes "\<not> list_all (\<lambda>v. trim v = []) hs"
  shows "popBlankRows (hs # map (\<lambda>r. map (fieldString r) hs) rs)
           = hs # map (\<lambda>r. map (fieldString r) hs) (withoutTrailingBlank hs rs)"
proof -
  define B where "B = list_all (\<lambda>v :: jstring. trim v = [])"
  define f where "f = (\<lambda>r. map (fieldString r) hs)"
  have bf: "B \<circ> f = (\<lambda>r. list_all (\<lambda>h. trim (fieldString r h) = []) hs)"
    by (auto simp: B_def f_def list_all_iff)
  have "dropWhile B (rev (map f rs) @ [hs]) = dropWhile B (rev (map f rs)) @ [hs]"
    using assms by (simp add: dropWhile_append B_def)
  also have "dropWhile B (rev (map f rs)) = map f (dropWhile (B \<circ> f) (rev rs))"
    by (simp add: rev_map dropWhile_map)
  finally show ?thesis
    unfolding popBlankRows_def withoutTrailingBlank_def B_def [symmetric] f_def [symmetric] bf [symmetric]
    by (simp add: rev_map)
qed

lemma map_of_fold_update:
  "h \<in> set xs \<or> map_of m h = Some (f h) \<Longrightarrow>
   map_of (fold (\<lambda>x m. AList.update x (f x) m) xs m) h = Some (f h)"
proof (induction xs arbitrary: m)
  case Nil
  then show ?case by simp
next
  case (Cons x xs)
  have "h \<in> set xs \<or> map_of (AList.update x (f x) m) h = Some (f h)"
    using Cons.prems by (auto simp: update_conv')
  from Cons.IH [OF this] show ?case by simp
qed

lemma fieldString_csvRecord:
  assumes "\<forall>h\<in>set hs. h \<noteq> [] \<and> h \<noteq> js ''__proto__''" and "h \<in> set hs"
  shows "fieldString (csvRecord hs (map (fieldString r) hs)) h = fieldString r h"
proof -
  have "csvRecord hs (map (fieldString r) hs)
      = fold (\<lambda>i m. AList.update (hs ! i) (Str (fieldString r (hs ! i))) m) [0..<length hs] []"
    unfolding csvRecord_def
  proof (rule fold_cong [OF refl refl])
    fix i assume "i \<in> set [0..<length hs]"
    then have i: "i < length hs" by simp
    then have "hs ! i \<noteq> []" "hs ! i \<noteq> js ''__proto__''" using assms(1) by simp_all
    moreover have "(case nth_opt (map (fieldString r) hs) (int i) of None \<Rightarrow> [] | Some v \<Rightarrow> v)
        = fieldString r (hs ! i)"
      using i by (simp add: nth_opt_def)
    ultimately show "setProperty (if hs ! i = [] then js ''Column'' @ decimal (i + 1) else hs ! i)
           (Str (case nth_opt (map (fieldString r) hs) (int i) of None \<Rightarrow> [] | Some v \<Rightarrow> v))
        = AList.update (hs ! i) (Str (fieldString r (hs ! i)))"
      by (simp add: setProperty_def fun_eq_iff)
  qed
  also have "\<dots> = fold (\<lambda>x m. AList.update x (Str (fieldString r x)) m)
                     (map (\<lambda>i. hs ! i) [0..<length hs]) []"
    by (simp add: fold_map comp_def)
  also have "\<dots> = fold (\<lambda>x m. AList.update x (Str (fieldString r x)) m) hs []"
    by (simp add: map_nth)
  finally have "map_of (csvRecord hs (map (fieldString r) hs)) h = Some (Str (fieldString r h))"
    using assms(2) by (simp add: map_of_fold_update)
  then show ?thesis by (simp add: fieldString_def [of "csvRecord _ _"])
qed

lemma join_empty_lines: "join [c] (replicate (Suc n) []) = replicate n c"
  by (induction n) simp_all

lemma csvLoop_newlines: "csvLoop (replicate n 0x0A) R [] [] False = R @ replicate (Suc n) [[]]"
proof (induction n arbitrary: R)
  case 0
  show ?case by simp
next
  case (Suc n)
  have "csvLoop (replicate (Suc n) 0x0A) R [] [] False = csvLoop (replicate n 0x0A) (R @ [[[]]]) [] [] False"
    by simp
  also have "\<dots> = (R @ [[[]]]) @ replicate (Suc n) [[]]" by (rule Suc.IH)
  finally show ?case by simp
qed

lemma popBlankRows_blank: "popBlankRows (replicate n [[]]) = []"
  by (simp add: popBlankRows_def trim_Nil dropWhile_eq_Nil_conv)

text \<open>
  Claim C2, amended. For headers that are non-empty, whitespace-trimmed, free of carriage
  returns and not named \<open>__proto__\<close>, and records whose values under these headers are
  free of carriage returns (commas, double quotes and line feeds are allowed), decoding
  the encoder's output gives back the headers, and gives back the records without the
  trailing records whose values are all blank: each decoded record holds, under every
  header, the value of the original record. When there is a last record and it is not
  blank, no record is dropped.
\<close>

theorem csv_round_trip:
  assumes hdr: "\<forall>h\<in>set hs. h \<noteq> [] \<and> trim h = h \<and> 0x0D \<notin> set h \<and> h \<noteq> js ''__proto__''"
    and vals: "\<forall>r\<in>set rs. \<forall>h\<in>set hs. 0x0D \<notin> set (fieldString r h)"
  shows "headers (parseCsvText (toCsv hs rs)) = hs
       \<and> map (\<lambda>d. map (fieldString d) hs) (rows (parseCsvText (toCsv hs rs)))
           = map (\<lambda>r. map (fieldString r) hs) (withoutTrailingBlank hs rs)
       \<and> (rs \<noteq> [] \<and> \<not> list_all (\<lambda>h. trim (fieldString (last rs) h) = []) hs
            \<longrightarrow> withoutTrailingBlank hs rs = rs)"
proof -
  have l: "withoutTrailingBlank hs rs = rs"
    if "rs \<noteq> []" "\<not> list_all (\<lambda>h. trim (fieldString (last rs) h) = []) hs"
  proof -
    from that have "dropWhile (\<lambda>r. list_all (\<lambda>h. trim (fieldString r h) = []) hs) (rev rs) = rev rs"
      by (cases "rev rs") (auto simp: last_rev [symmetric] hd_rev)
    then show ?thesis by (simp add: withoutTrailingBlank_def)
  qed
  have hv: "headers (parseCsvText (toCsv hs rs)) = hs
       \<and> map (\<lambda>d. map (fieldString d) hs) (rows (parseCsvText (toCsv hs rs)))
           = map (\<lambda>r. map (fieldString r) hs) (withoutTrailingBlank hs rs)"
  proof (cases "hs = []")
    case True
    have t: "toCsv [] rs = replicate (length rs) 0x0A"
      using join_empty_lines [of "0x0A" "length rs"] by (simp add: toCsv_def map_replicate_const)
    have "0x0D \<notin> set (replicate (length rs) (0x0A :: jschar))" by simp
    then have norm: "replaceCR (replaceCRLF (replicate (length rs) 0x0A)) = replicate (length rs) 0x0A"
      by (simp add: replaceCRLF_id replaceCR_id)
    have p: "parseCsvText (toCsv [] rs) = \<lparr> headers = [], rows = [] \<rparr>"
      unfolding parseCsvText_def Let_def t norm csvLoop_newlines append_Nil popBlankRows_blank
      by simp
    have w: "withoutTrailingBlank [] rs = []"
      by (simp add: withoutTrailingBlank_def)
    show ?thesis unfolding True p w by simp
  next
    case ne: False
    define data where "data = map (\<lambda>r. map (fieldString r) hs) rs"
    have cr: "0x0D \<notin> set (toCsv hs rs)"
      using hdr vals by (intro toCsv_no_CR) auto
    have norm: "replaceCR (replaceCRLF (toCsv hs rs)) = toCsv hs rs"
      using cr by (simp add: replaceCRLF_id replaceCR_id)
    have nonempty: "\<forall>vs\<in>set (hs # data). vs \<noteq> []"
      using ne by (auto simp: data_def)
    have scan: "csvLoop (toCsv hs rs) [] [] [] False = hs # data"
      unfolding toCsv_lines data_def [symmetric]
      using csvLoop_lines [OF _ nonempty, of "[]"] by simp
    have "hd hs \<in> set hs" using ne by simp
    with hdr have "trim (hd hs) \<noteq> []" by auto
    then have nb: "\<not> list_all (\<lambda>v. trim v = []) hs"
      using ne by (cases hs) auto
    have pop: "popBlankRows (hs # data)
        = hs # map (\<lambda>r. map (fieldString r) hs) (withoutTrailingBlank hs rs)"
      unfolding data_def by (rule popBlankRows_header [OF nb])
    have trimmed: "map trim hs = hs"
      using hdr by (induction hs) auto
    have h: "headers (parseCsvText (toCsv hs rs)) = hs"
      by (simp add: parseCsvText_def Let_def norm scan pop trimmed)
    have r: "rows (parseCsvText (toCsv hs rs))
        = map (\<lambda>r. csvRecord hs (map (fieldString r) hs)) (withoutTrailingBlank hs rs)"
      by (simp add: parseCsvText_def Let_def norm scan pop trimmed comp_def)
    have names: "\<forall>h\<in>set hs. h \<noteq> [] \<and> h \<noteq> js ''__proto__''"
      using hdr by blast
    have v: "map (\<lambda>d. map (fieldString d) hs) (rows (parseCsvText (toCsv hs rs)))
           = map (\<lambda>r. map (fieldString r) hs) (withoutTrailingBlank hs rs)"
      unfolding r by (simp add: comp_def fieldString_csvRecord [OF names] cong: map_cong)
    from h v show ?thesis by blast
  qed
  from hv l show ?thesis by blast
qed

text \<open>
  The claim as stated covers every list of headers and records. A carriage return in a
  value comes back as a line feed; two trailing records with empty values are both
  dropped (the decoder pops every trailing blank row, not a single one); a header with a
  leading space comes back trimmed; a carriage return in a header comes back as a line
  feed; the value under an empty header is stored under \<open>Column1\<close>, so that the decoded
  record has no value under the header. The decoder's assignment of the value under the
  header \<open>__proto__\<close> runs the inherited setter, which ignores it: the decoded record
  has no field, and reads the inherited member where the original held x (as an own
  property, which the object literal of a pair defines when the header of Object A is
  \<open>__proto__\<close>).
\<close>

theorem csv_round_trip_counterexample:
  "rows (parseCsvText (toCsv [js ''a''] [[(js ''a'', Str (js ''x'' @ [0x0D] @ js ''y''))]]))
     = [[(js ''a'', Str (js ''x'' @ [0x0A] @ js ''y''))]]
   \<and> rows (parseCsvText (toCsv [js ''a''] [[(js ''a'', Str [])], [(js ''a'', Str [])]])) = []
   \<and> headers (parseCsvText (toCsv [js '' a''] [])) = [js ''a'']
   \<and> headers (parseCsvText (toCsv [js ''a'' @ [0x0D] @ js ''b''] [])) = [js ''a'' @ [0x0A] @ js ''b'']
   \<and> fieldString [([], Str (js ''x''))] [] = js ''x''
   \<and> rows (parseCsvText (toCsv [[]] [[([], Str (js ''x''))]])) = [[(js ''Column1'', Str (js ''x''))]]
   \<and> fieldString [(js ''Column1'', Str (js ''x''))] [] = []
   \<and> fieldString [(js ''__proto__'', Str (js ''x''))] (js ''__proto__'') = js ''x''
   \<and> rows (parseCsvText (toCsv [js ''__proto__''] [[(js ''__proto__'', Str (js ''x''))]])) = [[]]
   \<and> fieldString [] (js ''__proto__'') = js ''[object Object]''"
  by code_simp

text \<open>
  The two records of the example: the blank last record is dropped and the first comes
  back with its comma, quotes and line feed; alone, the first record comes back as it is.
  The headers a, a of the record \<open>a = 1\<close> come back with the value 1 under both.
\<close>

theorem csv_round_trip_witness:
  "headers (parseCsvText (toCsv [js ''a'', js ''b''] csvRows)) = [js ''a'', js ''b'']
   \<and> map (\<lambda>d. map (fieldString d) [js ''a'', js ''b''])
         (rows (parseCsvText (toCsv [js ''a'', js ''b''] csvRows)))
       = [[js ''x,1'', [0x22] @ js ''q'' @ [0x22, 0x0A] @ js ''z'']]
   \<and> headers (parseCsvText (toCsv [js ''a'', js ''b''] [csvRows ! 0])) = [js ''a'', js ''b'']
   \<and> map (\<lambda>d. map (fieldString d) [js ''a'', js ''b''])
         (rows (parseCsvText (toCsv [js ''a'', js ''b''] [csvRows ! 0])))
       = [[js ''x,1'', [0x22] @ js ''q'' @ [0x22, 0x0A] @ js ''z'']]
   \<and> headers (parseCsvText (toCsv [js ''a'', js ''a''] [[(js ''a'', Str (js ''1''))]]))
       = [js ''a'', js ''a'']
   \<and> map (\<lambda>d. map (fieldString d) [js ''a'', js ''a''])
         (rows (parseCsvText (toCsv [js ''a'', js ''a''] [[(js ''a'', Str (js ''1''))]])))
       = [[js ''1'', js ''1'']]
   \<and> headers (parseCsvText (toCsv [] csvRows)) = []
   \<and> rows (parseCsvText (toCsv [] csvRows)) = []"
proof -
  have hdr: "\<forall>h\<in>set [js ''a'', js ''b'']. h \<noteq> [] \<and> trim h = h \<and> 0x0D \<notin> set h \<and> h \<noteq> js ''__proto__''"
    by code_simp
  have hdr2: "\<forall>h\<in>set [js ''a'', js ''a'']. h \<noteq> [] \<and> trim h = h \<and> 0x0D \<notin> set h \<and> h \<noteq> js ''__proto__''"
    by code_simp
  have vals: "\<forall>r\<in>set csvRows. \<forall>h\<in>set [js ''a'', js ''b'']. 0x0D \<notin> set (fieldString r h)"
    by code_simp
  have vals1: "\<forall>r\<in>set [csvRows ! 0]. \<forall>h\<in>set [js ''a'', js ''b'']. 0x0D \<notin> set (fieldString r h)"
    by code_simp
  have vals2: "\<forall>r\<in>set [[(js ''a'', Str (js ''1''))]]. \<forall>h\<in>set [js ''a'', js ''a''].
                 0x0D \<notin> set (fieldString r h)"
    by code_simp
  have w: "map (\<lambda>r. map (fieldString r) [js ''a'', js ''b''])
             (withoutTrailingBlank [js ''a'', js ''b''] csvRows)
      = [[js ''x,1'', [0x22] @ js ''q'' @ [0x22, 0x0A] @ js ''z'']]"
    by code_simp
  have w1: "map (\<lambda>r. map (fieldString r) [js ''a'', js ''b''])
              (withoutTrailingBlank [js ''a'', js ''b''] [csvRows ! 0])
      = [[js ''x,1'', [0x22] @ js ''q'' @ [0x22, 0x0A] @ js ''z'']]"
    by code_simp
  have w2: "map (\<lambda>r. map (fieldString r) [js ''a'', js ''a''])
              (withoutTrailingBlank [js ''a'', js ''a''] [[(js ''a'', Str (js ''1''))]])
      = [[js ''1'', js ''1'']]"
    by code_simp
  have e: "\<forall>h\<in>set ([] :: jstring list). h \<noteq> [] \<and> trim h = h \<and> 0x0D \<notin> set h \<and> h \<noteq> js ''__proto__''"
    "\<forall>r\<in>set csvRows. \<forall>h\<in>set ([] :: jstring list). 0x0D \<notin> set (fieldString r h)"
    by simp_all
  have w3: "withoutTrailingBlank [] csvRows = []"
    by (simp add: withoutTrailingBlank_def)
  from csv_round_trip [OF hdr vals] csv_round_trip [OF hdr vals1] csv_round_trip [OF hdr2 vals2]
       csv_round_trip [OF e]
  show ?thesis unfolding w w1 w2 w3 by simp
qed

end
